theory Spec2Isabelle
  imports Main "HOL-Library.Word"
begin

unbundle bit_operations_syntax

section \<open>Gossip-key rotation sidecars of consul-k8s\<close>

text \<open>
  The repository holds two variants of one idea, a process that watches a file holding
  the gossip encryption key and rotates the cluster keyring when the file changes:
  \<^item> package \<open>rotationsidecar\<close> (\<open>control-plane/subcommand/rotation-sidecar/command.go\<close>),
    driven by file-watch events, gated on leadership, fingerprinting with MD5;
  \<^item> package \<open>rotatoe\<close> (\<open>control-plane/subcommand/rotatoe/command.go\<close>), a polling
    loop without a leadership gate, fingerprinting with CRC-32 (Castagnoli).
  Both have a method \<open>installKey\<close> and a method \<open>Run\<close>; the definitions below carry the
  package name as a prefix.

  Everything the two programs do to the outside world is a call of the Consul API
  client, of the file system, of the file watcher or of \<open>time.Sleep\<close>. The embedding
  records every such call, with the answer it got, in a trace, and takes the answers from
  an environment. Calls of the logger change nothing the programs read back and are
  left out.
\<close>

subsection \<open>Data\<close>

text \<open>A Go \<open>error\<close> value is its message; \<open>nil\<close> is \<open>None\<close> of \<open>error option\<close>.\<close>

type_synonym error = string

text \<open>
  The run-time panics of Go the two programs can raise: indexing a slice at \<open>[0]\<close>
  when the slice is empty, and reading a field through a \<open>nil\<close> pointer.
\<close>

datatype panic = IndexOutOfRange | NilDereference

text \<open>
  \<open>api.KeyringResponse\<close> of the Consul client, with the fields the programs and the
  specification speak of. \<open>Keys\<close> and \<open>PrimaryKeys\<close> are Go maps from a key to the
  number of members holding it. A map is written as the list of its entries in the order
  in which a \<open>range\<close> loop visits them; Go leaves that order open, and every theorem
  below holds for every list, so for every order. The slice \<open>KeyringList\<close> returns holds
  pointers to such responses (\<open>[]*api.KeyringResponse\<close>): an element is \<open>Some\<close> response or
  \<open>None\<close>, the \<open>nil\<close> pointer.
\<close>

record KeyringResponse =
  Keys :: "(string \<times> int) list"
  PrimaryKeys :: "(string \<times> int) list"
  NumNodes :: int

text \<open>
  One entry of the trace: a call the program made and the answer it received.
  \<open>Status().Leader()\<close> returns the empty string together with its error, so its answer is
  a sum; \<open>ioutil.ReadFile\<close> may return bytes together with an error, so its answer is a
  pair; \<open>KeyringList\<close> is read by both programs only after its error is checked.
\<close>

datatype event =
    EvLeader "error + string"
  | EvReadFile "string \<times> error option"
  | EvKeyringList "error + KeyringResponse option list"
  | EvKeyringInstall string "error option"
  | EvKeyringUse string "error option"
  | EvKeyringRemove string "error option"
  | EvWatcherAdd string "error option"
  | EvSleep nat

text \<open>
  The environment answers each call; the answer may depend on everything that happened
  before (the trace so far) and on the argument of the call. Any behaviour of the
  cluster, of the file and of the network is one such environment.
\<close>

record env =
  respLeader :: "event list \<Rightarrow> error + string"
  respReadFile :: "event list \<Rightarrow> string \<times> error option"
  respKeyringList :: "event list \<Rightarrow> error + KeyringResponse option list"
  respKeyringInstall :: "event list \<Rightarrow> string \<Rightarrow> error option"
  respKeyringUse :: "event list \<Rightarrow> string \<Rightarrow> error option"
  respKeyringRemove :: "event list \<Rightarrow> string \<Rightarrow> error option"
  respWatcherAdd :: "event list \<Rightarrow> string \<Rightarrow> error option"

subsection \<open>The calls\<close>

definition Leader :: "env \<Rightarrow> event list \<Rightarrow> (error + string) \<times> event list" where
  "Leader E tr = (respLeader E tr, tr @ [EvLeader (respLeader E tr)])"

definition ReadFile :: "env \<Rightarrow> event list \<Rightarrow> (string \<times> error option) \<times> event list" where
  "ReadFile E tr = (respReadFile E tr, tr @ [EvReadFile (respReadFile E tr)])"

definition KeyringList ::
  "env \<Rightarrow> event list \<Rightarrow> (error + KeyringResponse option list) \<times> event list" where
  "KeyringList E tr = (respKeyringList E tr, tr @ [EvKeyringList (respKeyringList E tr)])"

definition KeyringInstall :: "env \<Rightarrow> string \<Rightarrow> event list \<Rightarrow> error option \<times> event list" where
  "KeyringInstall E k tr = (respKeyringInstall E tr k, tr @ [EvKeyringInstall k (respKeyringInstall E tr k)])"

definition KeyringUse :: "env \<Rightarrow> string \<Rightarrow> event list \<Rightarrow> error option \<times> event list" where
  "KeyringUse E k tr = (respKeyringUse E tr k, tr @ [EvKeyringUse k (respKeyringUse E tr k)])"

definition KeyringRemove :: "env \<Rightarrow> string \<Rightarrow> event list \<Rightarrow> error option \<times> event list" where
  "KeyringRemove E k tr = (respKeyringRemove E tr k, tr @ [EvKeyringRemove k (respKeyringRemove E tr k)])"

definition WatcherAdd :: "env \<Rightarrow> string \<Rightarrow> event list \<Rightarrow> error option \<times> event list" where
  "WatcherAdd E name tr = (respWatcherAdd E tr name, tr @ [EvWatcherAdd name (respWatcherAdd E tr name)])"

definition Sleep :: "nat \<Rightarrow> event list \<Rightarrow> event list" where
  "Sleep seconds tr = tr @ [EvSleep seconds]"

subsection \<open>\<open>installKey\<close> of the rotation sidecar\<close>

text \<open>
  The first \<open>range\<close> loop of \<open>installKey\<close> (lines 169 to 177): promote the new key when
  it is among the listed keys. The \<open>continue\<close> after a failed \<open>KeyringUse\<close> stands inside
  this \<open>range\<close> loop, so it goes on to the next listed key, not to the next poll.
\<close>

fun rotationsidecar_promoteLoop :: "env \<Rightarrow> string \<Rightarrow> string list \<Rightarrow> event list \<Rightarrow> event list" where
  "rotationsidecar_promoteLoop E newKey [] tr = tr"
| "rotationsidecar_promoteLoop E newKey (x # xs) tr =
     (if x = newKey then
        (case KeyringUse E newKey tr of
           (Some err, tr') \<Rightarrow> rotationsidecar_promoteLoop E newKey xs tr'
         | (None, tr') \<Rightarrow> rotationsidecar_promoteLoop E newKey xs tr')
      else rotationsidecar_promoteLoop E newKey xs tr)"

text \<open>
  The second \<open>range\<close> loop (lines 178 to 185): remove every listed key other than the
  new one; a failed removal is logged and the loop goes on.
\<close>

fun rotationsidecar_removeLoop :: "env \<Rightarrow> string \<Rightarrow> string list \<Rightarrow> event list \<Rightarrow> event list" where
  "rotationsidecar_removeLoop E newKey [] tr = tr"
| "rotationsidecar_removeLoop E newKey (x # xs) tr =
     (if x \<noteq> newKey then
        (case KeyringRemove E x tr of
           (Some err, tr') \<Rightarrow> rotationsidecar_removeLoop E newKey xs tr'
         | (None, tr') \<Rightarrow> rotationsidecar_removeLoop E newKey xs tr')
      else rotationsidecar_removeLoop E newKey xs tr)"

text \<open>
  The poll loop \<open>for i := 0; i < 100; i++\<close> (lines 162 to 188). The result is the
  return value of \<open>installKey\<close> (\<open>Inr None\<close> is \<open>return nil\<close>) or the panic of
  \<open>keyringList[0].Keys\<close> (line 169): on an empty slice the index is out of range, on a
  \<open>nil\<close> first element the field is read through a \<open>nil\<close> pointer.
\<close>

function rotationsidecar_pollLoop ::
  "env \<Rightarrow> string \<Rightarrow> nat \<Rightarrow> event list \<Rightarrow> (panic + error option) \<times> event list" where
  "rotationsidecar_pollLoop E newKey i tr =
     (if i < 100 then
        (case KeyringList E (Sleep 1 tr) of
           (Inl err, tr') \<Rightarrow> rotationsidecar_pollLoop E newKey (i + 1) tr'
         | (Inr keyringList, tr') \<Rightarrow>
             (case keyringList of
                [] \<Rightarrow> (Inl IndexOutOfRange, tr')
              | p0 # _ \<Rightarrow>
                  (case p0 of
                     None \<Rightarrow> (Inl NilDereference, tr')
                   | Some r0 \<Rightarrow>
                       (Inr None,
                        rotationsidecar_removeLoop E newKey (map fst (Keys r0))
                          (rotationsidecar_promoteLoop E newKey (map fst (Keys r0)) tr')))))
      else (Inr None, tr))"
  by pat_completeness auto
termination
  by (relation "measure (\<lambda>(E, newKey, i, tr). 100 - i)") auto

declare rotationsidecar_pollLoop.simps [simp del]

text \<open>
  \<open>installKey\<close>, lines 149 to 191. The log call of line 155 reads
  \<open>oldkeyringList[0].PrimaryKeys\<close> before anything is installed.
\<close>

definition rotationsidecar_installKey ::
  "env \<Rightarrow> string \<Rightarrow> event list \<Rightarrow> (panic + error option) \<times> event list" where
  "rotationsidecar_installKey E newKey tr =
     (case KeyringList E tr of
        (Inl err, tr1) \<Rightarrow> (Inr (Some err), tr1)
      | (Inr oldkeyringList, tr1) \<Rightarrow>
          (case oldkeyringList of
             [] \<Rightarrow> (Inl IndexOutOfRange, tr1)
           | p0 # _ \<Rightarrow>
               (case p0 of
                  None \<Rightarrow> (Inl NilDereference, tr1)
                | Some old0 \<Rightarrow>
                    (case KeyringInstall E newKey tr1 of
                       (Some err, tr2) \<Rightarrow> (Inr (Some err), tr2)
                     | (None, tr2) \<Rightarrow> rotationsidecar_pollLoop E newKey 0 tr2))))"

subsection \<open>\<open>installKey\<close> of rotatoe\<close>

text \<open>
  The poll loop of lines 134 to 153. The slice is indexed at \<open>[0]\<close> in the log call of
  line 143 when it is not \<open>nil\<close> and in the lookup of line 145 in every case, so an
  empty answer panics whether it is \<open>nil\<close> or not, and so does an answer whose first
  element is a \<open>nil\<close> pointer. \<open>Keys[newKey]\<close> with \<open>ok\<close> is a test of presence.
\<close>

function rotatoe_pollLoop ::
  "env \<Rightarrow> string \<Rightarrow> nat \<Rightarrow> event list \<Rightarrow> (panic + error option) \<times> event list" where
  "rotatoe_pollLoop E newKey i tr =
     (if i < 100 then
        (case KeyringList E (Sleep 10 tr) of
           (Inl err, tr') \<Rightarrow> rotatoe_pollLoop E newKey (i + 1) tr'
         | (Inr keyringList, tr') \<Rightarrow>
             (case keyringList of
                [] \<Rightarrow> (Inl IndexOutOfRange, tr')
              | p0 # _ \<Rightarrow>
                  (case p0 of
                     None \<Rightarrow> (Inl NilDereference, tr')
                   | Some r0 \<Rightarrow>
                       (if newKey \<in> set (map fst (Keys r0)) then
                          (case KeyringUse E newKey tr' of
                             (err, tr'') \<Rightarrow> (Inr None, tr''))
                        else rotatoe_pollLoop E newKey (i + 1) tr'))))
      else (Inr None, tr))"
  by pat_completeness auto
termination
  by (relation "measure (\<lambda>(E, newKey, i, tr). 100 - i)") auto

declare rotatoe_pollLoop.simps [simp del]

text \<open>
  \<open>installKey\<close>, lines 128 to 155: the error of \<open>KeyringInstall\<close> is logged and the
  polling starts all the same.
\<close>

definition rotatoe_installKey ::
  "env \<Rightarrow> string \<Rightarrow> event list \<Rightarrow> (panic + error option) \<times> event list" where
  "rotatoe_installKey E newKey tr =
     (case KeyringInstall E newKey tr of
        (err, tr1) \<Rightarrow> rotatoe_pollLoop E newKey 0 tr1)"

subsection \<open>Fingerprints\<close>

text \<open>
  The two programs fingerprint the file with functions of Go's standard library:
  \<open>md5.Sum\<close> (\<open>crypto/md5\<close>, RFC 1321) and \<open>crc32.Checksum\<close> with the table of the
  Castagnoli polynomial (\<open>hash/crc32\<close>). They are written out here so that a comparison
  of two checksums computes on concrete bytes. A byte of the file is a \<open>char\<close>.
\<close>

definition md5_K :: "32 word list" where
  "md5_K =
    [0xd76aa478, 0xe8c7b756, 0x242070db, 0xc1bdceee, 0xf57c0faf, 0x4787c62a, 0xa8304613, 0xfd469501,
     0x698098d8, 0x8b44f7af, 0xffff5bb1, 0x895cd7be, 0x6b901122, 0xfd987193, 0xa679438e, 0x49b40821,
     0xf61e2562, 0xc040b340, 0x265e5a51, 0xe9b6c7aa, 0xd62f105d, 0x02441453, 0xd8a1e681, 0xe7d3fbc8,
     0x21e1cde6, 0xc33707d6, 0xf4d50d87, 0x455a14ed, 0xa9e3e905, 0xfcefa3f8, 0x676f02d9, 0x8d2a4c8a,
     0xfffa3942, 0x8771f681, 0x6d9d6122, 0xfde5380c, 0xa4beea44, 0x4bdecfa9, 0xf6bb4b60, 0xbebfbc70,
     0x289b7ec6, 0xeaa127fa, 0xd4ef3085, 0x04881d05, 0xd9d4d039, 0xe6db99e5, 0x1fa27cf8, 0xc4ac5665,
     0xf4292244, 0x432aff97, 0xab9423a7, 0xfc93a039, 0x655b59c3, 0x8f0ccc92, 0xffeff47d, 0x85845dd1,
     0x6fa87e4f, 0xfe2ce6e0, 0xa3014314, 0x4e0811a1, 0xf7537e82, 0xbd3af235, 0x2ad7d2bb, 0xeb86d391]"

definition md5_s :: "nat list" where
  "md5_s =
    [7, 12, 17, 22, 7, 12, 17, 22, 7, 12, 17, 22, 7, 12, 17, 22,
     5, 9, 14, 20, 5, 9, 14, 20, 5, 9, 14, 20, 5, 9, 14, 20,
     4, 11, 16, 23, 4, 11, 16, 23, 4, 11, 16, 23, 4, 11, 16, 23,
     6, 10, 15, 21, 6, 10, 15, 21, 6, 10, 15, 21, 6, 10, 15, 21]"

definition rotl32 :: "32 word \<Rightarrow> nat \<Rightarrow> 32 word" where
  "rotl32 w n = push_bit n w OR drop_bit (32 - n) w"

definition le_bytes32 :: "32 word \<Rightarrow> 8 word list" where
  "le_bytes32 w = [ucast w, ucast (drop_bit 8 w), ucast (drop_bit 16 w), ucast (drop_bit 24 w)]"

definition le_bytes64 :: "64 word \<Rightarrow> 8 word list" where
  "le_bytes64 w = le_bytes32 (ucast w) @ le_bytes32 (ucast (drop_bit 32 w))"

definition le_word :: "8 word list \<Rightarrow> 32 word" where
  "le_word bs = foldr (\<lambda>b w. ucast b OR push_bit 8 w) bs 0"

text \<open>
  The padding: the byte \<open>0x80\<close>, zero bytes up to 56 modulo 64, and the length of the
  message in bits as a 64-bit little-endian number.
\<close>

definition md5_pad :: "8 word list \<Rightarrow> 8 word list" where
  "md5_pad m =
     m @ [0x80] @ replicate ((119 - length m mod 64) mod 64) 0
       @ le_bytes64 (8 * word_of_nat (length m))"

fun chunks :: "nat \<Rightarrow> 'a list \<Rightarrow> 'a list list" where
  "chunks n [] = []"
| "chunks n (x # xs) = (if n = 0 then [] else take n (x # xs) # chunks n (drop n (x # xs)))"

type_synonym md5_state = "32 word \<times> 32 word \<times> 32 word \<times> 32 word"

definition md5_step :: "32 word list \<Rightarrow> md5_state \<Rightarrow> nat \<Rightarrow> md5_state" where
  "md5_step M st i =
     (case st of (a, b, c, d) \<Rightarrow>
        (let f = (if i < 16 then (b AND c) OR (NOT b AND d)
                  else if i < 32 then (d AND b) OR (NOT d AND c)
                  else if i < 48 then b XOR c XOR d
                  else c XOR (b OR NOT d));
             g = (if i < 16 then i
                  else if i < 32 then (5 * i + 1) mod 16
                  else if i < 48 then (3 * i + 5) mod 16
                  else (7 * i) mod 16)
         in (d, b + rotl32 (f + a + md5_K ! i + M ! g) (md5_s ! i), b, c)))"

definition md5_block :: "md5_state \<Rightarrow> 8 word list \<Rightarrow> md5_state" where
  "md5_block st blk =
     (case st of (a0, b0, c0, d0) \<Rightarrow>
        (case foldl (md5_step (map le_word (chunks 4 blk))) st [0..<64] of
           (a, b, c, d) \<Rightarrow> (a0 + a, b0 + b, c0 + c, d0 + d)))"

text \<open>\<open>md5.Sum(data)\<close>: the 16 bytes of the digest.\<close>

definition md5_Sum :: "string \<Rightarrow> 8 word list" where
  "md5_Sum data =
     (case foldl md5_block (0x67452301, 0xefcdab89, 0x98badcfe, 0x10325476)
             (chunks 64 (md5_pad (map of_char data))) of
        (a, b, c, d) \<Rightarrow> le_bytes32 a @ le_bytes32 b @ le_bytes32 c @ le_bytes32 d)"

text \<open>
  \<open>crc32.MakeTable(crc32.Castagnoli)\<close> and \<open>crc32.Checksum(data, table)\<close>, as the
  portable implementation of \<open>hash/crc32\<close> computes them: entry \<open>i\<close> of the table is
  \<open>i\<close> after eight shift-and-reduce steps, and the checksum folds the bytes through the
  table between two complements.
\<close>

definition crc32_Castagnoli :: "32 word" where
  "crc32_Castagnoli = 0x82f63b78"

definition crc32_shift :: "32 word \<Rightarrow> 32 word \<Rightarrow> 32 word" where
  "crc32_shift poly crc = (if crc AND 1 = 1 then drop_bit 1 crc XOR poly else drop_bit 1 crc)"

definition crc32_MakeTable :: "32 word \<Rightarrow> 8 word \<Rightarrow> 32 word" where
  "crc32_MakeTable poly i = (crc32_shift poly ^^ 8) (ucast i)"

definition crc32_Checksum :: "string \<Rightarrow> (8 word \<Rightarrow> 32 word) \<Rightarrow> 32 word" where
  "crc32_Checksum data tab =
     NOT (foldl (\<lambda>crc v. tab (ucast crc XOR of_char v) XOR drop_bit 8 crc) (NOT 0) data)"

subsection \<open>The event loop of the rotation sidecar\<close>

text \<open>
  \<open>strings.Split(s, ":")\<close> for the one-byte separator the program uses: the pieces of
  \<open>s\<close> between the separators, never an empty slice.
\<close>

fun Split :: "string \<Rightarrow> char \<Rightarrow> string list" where
  "Split [] sep = [[]]"
| "Split (c # cs) sep =
     (if c = sep then [] # Split cs sep
      else (case Split cs sep of [] \<Rightarrow> [[c]] | w # ws \<Rightarrow> (c # w) # ws))"

text \<open>
  \<open>fsnotify.Event\<close> and the two bits of \<open>fsnotify.Op\<close> the program tests
  (\<open>Create = 1\<close>, \<open>Write = 2\<close>, \<open>Remove = 4\<close>, \<open>Rename = 8\<close>, \<open>Chmod = 16\<close>).
\<close>

record fsnotify_Event =
  Name :: string
  Op :: "32 word"

definition fsnotify_Write :: "32 word" where
  "fsnotify_Write = 2"

definition fsnotify_Remove :: "32 word" where
  "fsnotify_Remove = 4"

text \<open>
  What one \<open>select\<close> of the loop received: a watcher event, a watcher error, the
  expiry of \<open>time.After(600 * time.Second)\<close>, or a signal on \<open>sigCh\<close>.
\<close>

datatype selected = WatcherEvents fsnotify_Event | WatcherErrors error | TimeAfter | SigCh

text \<open>
  How one pass through the body of \<open>for { select { ... } }\<close> ends: the loop goes to
  its next pass with the value of its variable (\<open>currentChecksum\<close>, \<open>currentCRC\<close>); the
  goroutine blocks for ever (the send on \<open>errCh\<close>, an unbuffered channel nobody
  receives from); the process panics; or the loop is left and \<open>Run\<close> returns an exit
  code.
\<close>

datatype 'c outcome = Continue 'c | Blocked | Panicked panic | Exited int

text \<open>
  The body of \<open>case event.Op&fsnotify.Write == fsnotify.Write\<close> (lines 121 to 133),
  which the \<open>Remove\<close> case falls through to.
\<close>

definition rotationsidecar_caseWrite ::
  "env \<Rightarrow> 8 word list \<Rightarrow> event list \<Rightarrow> 8 word list outcome \<times> event list" where
  "rotationsidecar_caseWrite E currentChecksum tr =
     (case ReadFile E tr of
        ((data, Some err), tr1) \<Rightarrow> (Continue currentChecksum, tr1)
      | ((data, None), tr1) \<Rightarrow>
          (let checksum = md5_Sum data in
           if checksum \<noteq> currentChecksum then
             (case rotationsidecar_installKey E data tr1 of
                (Inl p, tr2) \<Rightarrow> (Panicked p, tr2)
              | (Inr None, tr2) \<Rightarrow> (Continue checksum, tr2)
              | (Inr (Some err), tr2) \<Rightarrow> (Continue currentChecksum, tr2))
           else (Continue currentChecksum, tr1)))"

text \<open>
  One pass of the loop of \<open>Run\<close> (lines 107 to 142). The \<open>break\<close> of the \<open>sigCh\<close>
  case leaves the \<open>select\<close> statement, not the \<open>for\<close> loop.
\<close>

definition rotationsidecar_Run_select ::
  "env \<Rightarrow> string \<Rightarrow> selected \<Rightarrow> 8 word list \<Rightarrow> event list \<Rightarrow> 8 word list outcome \<times> event list" where
  "rotationsidecar_Run_select E podIP sel currentChecksum tr =
     (case sel of
        WatcherEvents event \<Rightarrow>
          (case Leader E tr of
             (r, tr1) \<Rightarrow>
               (let leader = (case r of Inl err \<Rightarrow> [] | Inr l \<Rightarrow> l) in
                if leader = [] then (Continue currentChecksum, tr1)
                else if hd (Split leader CHR '':'') \<noteq> podIP then (Continue currentChecksum, tr1)
                else if Op event AND fsnotify_Remove = fsnotify_Remove then
                  (case WatcherAdd E (Name event) tr1 of
                     (err, tr2) \<Rightarrow> rotationsidecar_caseWrite E currentChecksum tr2)
                else if Op event AND fsnotify_Write = fsnotify_Write then
                  rotationsidecar_caseWrite E currentChecksum tr1
                else (Continue currentChecksum, tr1)))
      | WatcherErrors err \<Rightarrow> (Blocked, tr)
      | TimeAfter \<Rightarrow> (Continue currentChecksum, tr)
      | SigCh \<Rightarrow> (Continue currentChecksum, tr))"

text \<open>
  The loop over the receptions of a run, in their order. When the list is used up the
  loop is waiting in its \<open>select\<close>, which is \<open>Continue\<close>.
\<close>

fun rotationsidecar_Run_loop ::
  "env \<Rightarrow> string \<Rightarrow> selected list \<Rightarrow> 8 word list \<Rightarrow> event list \<Rightarrow> 8 word list outcome \<times> event list" where
  "rotationsidecar_Run_loop E podIP [] currentChecksum tr = (Continue currentChecksum, tr)"
| "rotationsidecar_Run_loop E podIP (sel # sels) currentChecksum tr =
     (case rotationsidecar_Run_select E podIP sel currentChecksum tr of
        (Continue checksum, tr') \<Rightarrow> rotationsidecar_Run_loop E podIP sels checksum tr'
      | (Blocked, tr') \<Rightarrow> (Blocked, tr')
      | (Panicked p, tr') \<Rightarrow> (Panicked p, tr')
      | (Exited code, tr') \<Rightarrow> (Exited code, tr'))"

text \<open>
  \<open>Run\<close> from the first read of the file (line 99) on; the flags, the logger, the
  client and the watcher are set up before and are not part of the rotation.
\<close>

definition rotationsidecar_Run ::
  "env \<Rightarrow> string \<Rightarrow> selected list \<Rightarrow> 8 word list outcome \<times> event list" where
  "rotationsidecar_Run E podIP sels =
     (case ReadFile E [] of
        ((data, Some err), tr) \<Rightarrow> (Exited 1, tr)
      | ((data, None), tr) \<Rightarrow> rotationsidecar_Run_loop E podIP sels (md5_Sum data) tr)"

subsection \<open>The polling loop of rotatoe\<close>

text \<open>
  One pass of the loop of \<open>Run\<close> (lines 108 to 123): the error of \<open>ReadFile\<close> is logged
  and the bytes it returned are used all the same; \<open>currentCRC\<close> is assigned before
  \<open>installKey\<close> is called, and the error \<open>installKey\<close> returns is never read.
\<close>

definition rotatoe_Run_pass ::
  "env \<Rightarrow> 32 word \<Rightarrow> event list \<Rightarrow> 32 word outcome \<times> event list" where
  "rotatoe_Run_pass E currentCRC tr =
     (case ReadFile E (Sleep 10 tr) of
        ((inputFileContents, err), tr1) \<Rightarrow>
          (let chksum = crc32_Checksum inputFileContents (crc32_MakeTable crc32_Castagnoli) in
           if chksum \<noteq> currentCRC then
             (case rotatoe_installKey E inputFileContents tr1 of
                (Inl p, tr2) \<Rightarrow> (Panicked p, tr2)
              | (Inr err', tr2) \<Rightarrow> (Continue chksum, tr2))
           else (Continue currentCRC, tr1)))"

text \<open>The first \<open>n\<close> passes of the loop.\<close>

fun rotatoe_Run_loop ::
  "env \<Rightarrow> nat \<Rightarrow> 32 word \<Rightarrow> event list \<Rightarrow> 32 word outcome \<times> event list" where
  "rotatoe_Run_loop E 0 currentCRC tr = (Continue currentCRC, tr)"
| "rotatoe_Run_loop E (Suc n) currentCRC tr =
     (case rotatoe_Run_pass E currentCRC tr of
        (Continue crc, tr') \<Rightarrow> rotatoe_Run_loop E n crc tr'
      | (Blocked, tr') \<Rightarrow> (Blocked, tr')
      | (Panicked p, tr') \<Rightarrow> (Panicked p, tr')
      | (Exited code, tr') \<Rightarrow> (Exited code, tr'))"

text \<open>
  \<open>Run\<close> from the sleep of line 92 on; the file is read once before the loop and the
  error of that read is overwritten unread.
\<close>

definition rotatoe_Run :: "env \<Rightarrow> nat \<Rightarrow> 32 word outcome \<times> event list" where
  "rotatoe_Run E n =
     (case ReadFile E (Sleep 10 []) of
        ((inputFileContents, err), tr) \<Rightarrow>
          rotatoe_Run_loop E n
            (crc32_Checksum inputFileContents (crc32_MakeTable crc32_Castagnoli)) tr)"

subsection \<open>Reading a trace\<close>

text \<open>The calls that change the keyring: \<open>KeyringInstall\<close>, \<open>KeyringUse\<close>, \<open>KeyringRemove\<close>.\<close>

fun mutating :: "event \<Rightarrow> bool" where
  "mutating (EvKeyringInstall k r) = True"
| "mutating (EvKeyringUse k r) = True"
| "mutating (EvKeyringRemove k r) = True"
| "mutating ev = False"

text \<open>Every call of the keyring API, \<open>KeyringList\<close> included.\<close>

fun keyringCall :: "event \<Rightarrow> bool" where
  "keyringCall (EvKeyringList r) = True"
| "keyringCall ev = mutating ev"

fun fileRead :: "event \<Rightarrow> bool" where
  "fileRead (EvReadFile r) = True"
| "fileRead ev = False"

text \<open>
  The calls are only ever appended to the trace, so what a piece of the program did is
  the part of its final trace that comes after the trace it started from.
\<close>

definition emitted :: "event list \<Rightarrow> event list \<Rightarrow> event list" where
  "emitted tr tr' = drop (length tr) tr'"

text \<open>
  The leadership check of lines 110 to 115, as a predicate of the answer of
  \<open>Status().Leader()\<close>: the instance goes on only when a leader is reported and the part
  of its address before the first colon is the pod's own address.
\<close>

definition authorized :: "error + string \<Rightarrow> string \<Rightarrow> bool" where
  "authorized r podIP =
     (case r of Inl err \<Rightarrow> False | Inr leader \<Rightarrow> leader \<noteq> [] \<and> hd (Split leader CHR '':'') = podIP)"

text \<open>
  The trace at the moment a pass on a watcher event reads the file, when it reads it:
  after the answer of \<open>Leader\<close> and, on a remove event, after the watch has been added
  again (lines 110 to 122).
\<close>

definition rotationsidecar_readPoint :: "env \<Rightarrow> fsnotify_Event \<Rightarrow> event list \<Rightarrow> event list" where
  "rotationsidecar_readPoint E event tr =
     (if Op event AND fsnotify_Remove = fsnotify_Remove
      then snd (WatcherAdd E (Name event) (snd (Leader E tr)))
      else snd (Leader E tr))"

text \<open>
  Two readings of one \<open>KeyringList\<close> answer, both about its first response, the one the
  programs index: the key is listed (what the programs test), and the key is reported by
  as many members as the response counts nodes (what the specification asks for).
\<close>

definition listed :: "string \<Rightarrow> error + KeyringResponse option list \<Rightarrow> bool" where
  "listed k r =
     (case r of Inl err \<Rightarrow> False | Inr [] \<Rightarrow> False | Inr (None # rs) \<Rightarrow> False
      | Inr (Some r0 # rs) \<Rightarrow> k \<in> set (map fst (Keys r0)))"

definition propagated :: "string \<Rightarrow> error + KeyringResponse option list \<Rightarrow> bool" where
  "propagated k r =
     (case r of Inl err \<Rightarrow> False | Inr [] \<Rightarrow> False | Inr (None # rs) \<Rightarrow> False
      | Inr (Some r0 # rs) \<Rightarrow> map_of (Keys r0) k = Some (NumNodes r0))"

text \<open>
  A trace keeps the order ``promote only after an observation'' when every
  \<open>KeyringUse\<close> in it comes after a \<open>KeyringList\<close> whose answer satisfies \<open>ok\<close>; the flag
  says whether such an answer has been seen.
\<close>

fun promoteAfter ::
  "(error + KeyringResponse option list \<Rightarrow> bool) \<Rightarrow> bool \<Rightarrow> event list \<Rightarrow> bool" where
  "promoteAfter ok seen [] = True"
| "promoteAfter ok seen (EvKeyringList r # evs) = promoteAfter ok (seen \<or> ok r) evs"
| "promoteAfter ok seen (EvKeyringUse k r # evs) = (seen \<and> promoteAfter ok seen evs)"
| "promoteAfter ok seen (ev # evs) = promoteAfter ok seen evs"

text \<open>
  A trace keeps the order ``remove only after promotion'' of the key \<open>k\<close> when every
  \<open>KeyringRemove\<close> in it comes after a \<open>KeyringUse\<close> of \<open>k\<close> that returned no error.
\<close>

fun removeAfterPromote :: "string \<Rightarrow> bool \<Rightarrow> event list \<Rightarrow> bool" where
  "removeAfterPromote k promoted [] = True"
| "removeAfterPromote k promoted (EvKeyringUse k' r # evs) =
     removeAfterPromote k (promoted \<or> (k' = k \<and> r = None)) evs"
| "removeAfterPromote k promoted (EvKeyringRemove k' r # evs) =
     (promoted \<and> removeAfterPromote k promoted evs)"
| "removeAfterPromote k promoted (ev # evs) = removeAfterPromote k promoted evs"

subsection \<open>Environments for concrete runs\<close>

text \<open>
  A cluster of three members whose keyring holds the old key \<open>k1\<close>, primary, and the new
  key \<open>k2\<close>, both on every member; this pod is the leader; the file holds \<open>k2\<close>; every
  call succeeds.
\<close>

definition keyringBoth :: KeyringResponse where
  "keyringBoth = \<lparr>Keys = [(''k1'', 3), (''k2'', 3)], PrimaryKeys = [(''k1'', 3)], NumNodes = 3\<rparr>"

definition envHealthy :: env where
  "envHealthy =
     \<lparr>respLeader = (\<lambda>h. Inr ''10.0.0.7:8300''),
      respReadFile = (\<lambda>h. (''k2'', None)),
      respKeyringList = (\<lambda>h. Inr [Some keyringBoth]),
      respKeyringInstall = (\<lambda>h k. None),
      respKeyringUse = (\<lambda>h k. None),
      respKeyringRemove = (\<lambda>h k. None),
      respWatcherAdd = (\<lambda>h name. None)\<rparr>"

text \<open>The same cluster when every \<open>KeyringUse\<close> fails.\<close>

definition envPromoteFails :: env where
  "envPromoteFails = envHealthy\<lparr>respKeyringUse := (\<lambda>h k. Some ''rpc error'')\<rparr>"

text \<open>
  The new key has reached one member of three: the keyring lists \<open>k2\<close> with count 1.
\<close>

definition keyringPartial :: KeyringResponse where
  "keyringPartial = \<lparr>Keys = [(''k1'', 3), (''k2'', 1)], PrimaryKeys = [(''k1'', 3)], NumNodes = 3\<rparr>"

definition envPartial :: env where
  "envPartial = envHealthy\<lparr>respKeyringList := (\<lambda>h. Inr [Some keyringPartial])\<rparr>"

text \<open>The keyring does not list the new key at all, and every removal fails.\<close>

definition keyringOld :: KeyringResponse where
  "keyringOld = \<lparr>Keys = [(''k1'', 3)], PrimaryKeys = [(''k1'', 3)], NumNodes = 3\<rparr>"

definition envNotListed :: env where
  "envNotListed =
     envHealthy\<lparr>respKeyringList := (\<lambda>h. Inr [Some keyringOld]),
                 respKeyringRemove := (\<lambda>h k. Some ''rpc error'')\<rparr>"

text \<open>\<open>KeyringList\<close> succeeds with an empty list of responses.\<close>

definition envEmptyList :: env where
  "envEmptyList = envHealthy\<lparr>respKeyringList := (\<lambda>h. Inr [])\<rparr>"

text \<open>
  \<open>KeyringList\<close> answers the first call with the old keyring and every later call with
  an empty list of responses.
\<close>

definition envListDrains :: env where
  "envListDrains = envHealthy\<lparr>respKeyringList := (\<lambda>h. if h = [] then Inr [Some keyringOld] else Inr [])\<rparr>"

text \<open>The leader cannot be determined: the call fails.\<close>

definition envNoLeader :: env where
  "envNoLeader = envHealthy\<lparr>respLeader := (\<lambda>h. Inl ''connection refused'')\<rparr>"

text \<open>The file is read as an empty buffer, without an error.\<close>

definition envEmptyFile :: env where
  "envEmptyFile = envHealthy\<lparr>respReadFile := (\<lambda>h. ([], None))\<rparr>"

text \<open>
  The file holds \<open>k1\<close> the first time it is read and \<open>k2\<close> from then on; and the same
  when every \<open>KeyringUse\<close> fails.
\<close>

definition envFileChanges :: env where
  "envFileChanges =
     envHealthy\<lparr>respReadFile :=
       (\<lambda>h. if filter fileRead h = [] then (''k1'', None) else (''k2'', None))\<rparr>"

definition envFileChangesPromoteFails :: env where
  "envFileChangesPromoteFails =
     envFileChanges\<lparr>respKeyringUse := (\<lambda>h k. Some ''rpc error'')\<rparr>"

text \<open>
  The file holds \<open>k1\<close> the first time it is read; after that, in turn: every read fails;
  every read returns an empty buffer; the file holds \<open>k2\<close> and every \<open>KeyringList\<close>
  fails.
\<close>

definition envFileVanishes :: env where
  "envFileVanishes =
     envHealthy\<lparr>respReadFile :=
       (\<lambda>h. if filter fileRead h = [] then (''k1'', None) else ([], Some ''no such file''))\<rparr>"

definition envFileEmptied :: env where
  "envFileEmptied =
     envHealthy\<lparr>respReadFile :=
       (\<lambda>h. if filter fileRead h = [] then (''k1'', None) else ([], None))\<rparr>"

definition envFileChangesListFails :: env where
  "envFileChangesListFails =
     envFileChanges\<lparr>respKeyringList := (\<lambda>h. Inl ''rpc error'')\<rparr>"

text \<open>
  \<open>KeyringList\<close> answers the first call with the old keyring and every later call with
  a list whose one element is a \<open>nil\<close> pointer.
\<close>

definition envListNil :: env where
  "envListNil =
     envHealthy\<lparr>respKeyringList := (\<lambda>h. if h = [] then Inr [Some keyringOld] else Inr [None])\<rparr>"

text \<open>A write event on the watched file.\<close>

definition writeEvent :: fsnotify_Event where
  "writeEvent = \<lparr>Name = ''/consul/gossip/key'', Op = fsnotify_Write\<rparr>"

section \<open>Properties\<close>

subsection \<open>Test vectors of the fingerprints\<close>

text \<open>
  The digests RFC 1321 gives for the empty message and for \<open>abc\<close>, the CRC-32C of
  the empty input and of \<open>ab\<close>, and the fingerprints of the two keys the concrete runs
  below use.
\<close>

lemma md5_Sum_empty:
  "md5_Sum [] = [0xd4, 0x1d, 0x8c, 0xd9, 0x8f, 0x00, 0xb2, 0x04, 0xe9, 0x80, 0x09, 0x98, 0xec, 0xf8, 0x42, 0x7e]"
  by code_simp

lemma md5_Sum_abc:
  "md5_Sum ''abc'' = [0x90, 0x01, 0x50, 0x98, 0x3c, 0xd2, 0x4f, 0xb0, 0xd6, 0x96, 0x3f, 0x7d, 0x28, 0xe1, 0x7f, 0x72]"
  by code_simp

lemma md5_Sum_k1:
  "md5_Sum ''k1'' = [0xb6, 0x37, 0xb1, 0x7a, 0xf0, 0x8a, 0xce, 0xd8, 0x85, 0x0c, 0x18, 0xcc, 0xcd, 0xe9, 0x15, 0xda]"
  by code_simp

lemma md5_Sum_k2:
  "md5_Sum ''k2'' = [0x61, 0x62, 0x09, 0x57, 0xa1, 0x44, 0x3c, 0x94, 0x6a, 0x14, 0x3c, 0xf9, 0x9a, 0x7d, 0x24, 0xfa]"
  by code_simp

lemma crc32_Checksum_empty: "crc32_Checksum [] (crc32_MakeTable crc32_Castagnoli) = 0"
  by code_simp

lemma crc32_Checksum_ab: "crc32_Checksum ''ab'' (crc32_MakeTable crc32_Castagnoli) = 0xe2a22936"
  by code_simp

lemma crc32_Checksum_k1: "crc32_Checksum ''k1'' (crc32_MakeTable crc32_Castagnoli) = 0x1a86f347"
  by code_simp

lemma crc32_Checksum_k2: "crc32_Checksum ''k2'' (crc32_MakeTable crc32_Castagnoli) = 0x09d600b3"
  by code_simp

subsection \<open>Traces grow at the end\<close>

text \<open>The definitions a concrete run unfolds.\<close>

lemmas call_defs = Leader_def ReadFile_def KeyringList_def KeyringInstall_def KeyringUse_def
  KeyringRemove_def WatcherAdd_def Sleep_def

lemmas env_defs = envHealthy_def envPromoteFails_def envPartial_def envNotListed_def
  envEmptyList_def envListDrains_def envListNil_def envNoLeader_def envEmptyFile_def
  envFileChanges_def envFileChangesPromoteFails_def envFileChangesListFails_def
  envFileVanishes_def envFileEmptied_def

lemmas run_defs = rotationsidecar_Run_select_def rotationsidecar_caseWrite_def
  rotationsidecar_installKey_def rotatoe_Run_pass_def rotatoe_installKey_def
  rotationsidecar_pollLoop.simps rotatoe_pollLoop.simps
  rotationsidecar_Run_def rotatoe_Run_def writeEvent_def fsnotify_Write_def fsnotify_Remove_def

lemma emitted_append [simp]: "emitted tr (tr @ evs) = evs"
  by (simp add: emitted_def)

lemma emitted_self [simp]: "emitted tr tr = []"
  by (simp add: emitted_def)

lemma emitted_Nil [simp]: "emitted [] tr = tr"
  by (simp add: emitted_def)

lemma promoteAfter_True: "promoteAfter ok True evs"
proof (induction evs)
  case Nil
  show ?case by simp
next
  case (Cons e evs)
  then show ?case by (cases e) simp_all
qed

lemma promoteLoop_emits:
  "\<exists>us. rotationsidecar_promoteLoop E k xs tr = tr @ us \<and> (k \<notin> set xs \<longrightarrow> us = [])"
proof (induction xs arbitrary: tr)
  case Nil
  show ?case by simp
next
  case (Cons x xs)
  show ?case
  proof (cases "x = k")
    case True
    obtain us where "rotationsidecar_promoteLoop E k xs (tr @ [EvKeyringUse k (respKeyringUse E tr k)])
        = (tr @ [EvKeyringUse k (respKeyringUse E tr k)]) @ us"
      using Cons.IH by blast
    with True show ?thesis
      by (cases "respKeyringUse E tr k") (simp_all add: KeyringUse_def)
  next
    case False
    with Cons.IH [of tr] show ?thesis by auto
  qed
qed

lemma removeLoop_emits:
  "\<exists>rs. rotationsidecar_removeLoop E k xs tr = tr @ rs \<and> (\<forall>seen. promoteAfter ok seen rs)"
proof (induction xs arbitrary: tr)
  case Nil
  show ?case by simp
next
  case (Cons x xs)
  show ?case
  proof (cases "x = k")
    case True
    with Cons.IH [of tr] show ?thesis by simp
  next
    case False
    obtain rs where rs: "rotationsidecar_removeLoop E k xs (tr @ [EvKeyringRemove x (respKeyringRemove E tr x)])
        = (tr @ [EvKeyringRemove x (respKeyringRemove E tr x)]) @ rs" "\<forall>seen. promoteAfter ok seen rs"
      using Cons.IH by blast
    with False show ?thesis
      by (cases "respKeyringRemove E tr x") (simp_all add: KeyringRemove_def)
  qed
qed

lemma sidecar_pollLoop_promote:
  "\<exists>evs. snd (rotationsidecar_pollLoop E k i tr) = tr @ evs \<and> (\<forall>seen. promoteAfter (listed k) seen evs)"
proof (induction E k i tr rule: rotationsidecar_pollLoop.induct)
  case (1 E k i tr)
  show ?case
  proof (cases "i < 100")
    case False
    then show ?thesis by (subst rotationsidecar_pollLoop.simps) simp
  next
    case True
    let ?tr1 = "tr @ [EvSleep 1]"
    let ?r = "respKeyringList E ?tr1"
    let ?tr2 = "?tr1 @ [EvKeyringList ?r]"
    have short: "\<exists>evs. snd (rotationsidecar_pollLoop E k i tr) = tr @ evs
        \<and> (\<forall>seen. promoteAfter (listed k) seen evs)"
      if "snd (rotationsidecar_pollLoop E k i tr) = tr @ [EvSleep 1, EvKeyringList ?r]"
    proof -
      have "\<forall>seen. promoteAfter (listed k) seen [EvSleep 1, EvKeyringList ?r]"
        by simp
      with that show ?thesis by blast
    qed
    show ?thesis
    proof (cases ?r)
      case (Inl err)
      have "\<exists>evs. snd (rotationsidecar_pollLoop E k (i + 1) ?tr2) = ?tr2 @ evs
              \<and> (\<forall>seen. promoteAfter (listed k) seen evs)"
        using "1.IH" [of "Inl err" ?tr2 err] True Inl by (simp add: call_defs)
      then obtain evs where evs: "snd (rotationsidecar_pollLoop E k (i + 1) ?tr2) = ?tr2 @ evs"
          "\<forall>seen. promoteAfter (listed k) seen evs"
        by blast
      have "snd (rotationsidecar_pollLoop E k i tr) = tr @ (EvSleep 1 # EvKeyringList ?r # evs)"
        using True Inl evs(1) by (subst rotationsidecar_pollLoop.simps) (simp add: call_defs)
      moreover have "\<forall>seen. promoteAfter (listed k) seen (EvSleep 1 # EvKeyringList ?r # evs)"
        using evs(2) by simp
      ultimately show ?thesis by blast
    next
      case (Inr keyringList)
      show ?thesis
      proof (cases keyringList)
        case Nil
        have "snd (rotationsidecar_pollLoop E k i tr) = tr @ [EvSleep 1, EvKeyringList ?r]"
          using True Inr Nil by (subst rotationsidecar_pollLoop.simps) (simp add: call_defs)
        then show ?thesis by (rule short)
      next
        case (Cons p0 rest)
        show ?thesis
        proof (cases p0)
          case None
          have "snd (rotationsidecar_pollLoop E k i tr) = tr @ [EvSleep 1, EvKeyringList ?r]"
            using True Inr Cons None by (subst rotationsidecar_pollLoop.simps) (simp add: call_defs)
          then show ?thesis by (rule short)
        next
          case (Some r0)
          let ?ks = "map fst (Keys r0)"
          obtain us where us: "rotationsidecar_promoteLoop E k ?ks ?tr2 = ?tr2 @ us"
              "k \<notin> set ?ks \<longrightarrow> us = []"
            using promoteLoop_emits by blast
          obtain rs where rs: "rotationsidecar_removeLoop E k ?ks (?tr2 @ us) = (?tr2 @ us) @ rs"
              "\<forall>seen. promoteAfter (listed k) seen rs"
            using removeLoop_emits by blast
          have eq: "snd (rotationsidecar_pollLoop E k i tr)
              = tr @ (EvSleep 1 # EvKeyringList ?r # us @ rs)"
            using True Inr Cons Some us(1) rs(1)
            by (subst rotationsidecar_pollLoop.simps) (simp add: call_defs)
          have "promoteAfter (listed k) seen (EvSleep 1 # EvKeyringList ?r # us @ rs)" for seen
          proof (cases "k \<in> set ?ks")
            case True
            then have "listed k ?r" using Inr Cons Some by (simp add: listed_def)
            then show ?thesis by (simp add: promoteAfter_True)
          next
            case False
            with us(2) rs(2) show ?thesis by simp
          qed
          with eq show ?thesis by blast
        qed
      qed
    qed
  qed
qed

text \<open>
  What the poll loop of rotatoe adds to the trace holds no \<open>KeyringRemove\<close>, and every
  \<open>KeyringUse\<close> in it comes after a list that shows the key.
\<close>

lemma rotatoe_pollLoop_emits:
  "\<exists>evs. snd (rotatoe_pollLoop E k i tr) = tr @ evs
      \<and> (\<forall>seen. promoteAfter (listed k) seen evs)
      \<and> (\<forall>x r. EvKeyringRemove x r \<notin> set evs)"
proof (induction E k i tr rule: rotatoe_pollLoop.induct)
  case (1 E k i tr)
  let ?tr1 = "tr @ [EvSleep 10]"
  let ?r = "respKeyringList E ?tr1"
  let ?tr2 = "?tr1 @ [EvKeyringList ?r]"
  let ?goal = "\<exists>evs. snd (rotatoe_pollLoop E k i tr) = tr @ evs
      \<and> (\<forall>seen. promoteAfter (listed k) seen evs)
      \<and> (\<forall>x r. EvKeyringRemove x r \<notin> set evs)"
  have step: ?goal
    if rec: "snd (rotatoe_pollLoop E k i tr) = snd (rotatoe_pollLoop E k (i + 1) ?tr2)"
      and ih: "\<exists>evs. snd (rotatoe_pollLoop E k (i + 1) ?tr2) = ?tr2 @ evs
            \<and> (\<forall>seen. promoteAfter (listed k) seen evs)
            \<and> (\<forall>x r. EvKeyringRemove x r \<notin> set evs)"
  proof -
    from ih obtain evs where evs: "snd (rotatoe_pollLoop E k (i + 1) ?tr2) = ?tr2 @ evs"
        "\<forall>seen. promoteAfter (listed k) seen evs" "\<forall>x r. EvKeyringRemove x r \<notin> set evs"
      by blast
    have "snd (rotatoe_pollLoop E k i tr) = tr @ (EvSleep 10 # EvKeyringList ?r # evs)"
      using rec evs(1) by simp
    moreover have "\<forall>seen. promoteAfter (listed k) seen (EvSleep 10 # EvKeyringList ?r # evs)"
      using evs(2) by simp
    moreover have "\<forall>x r. EvKeyringRemove x r \<notin> set (EvSleep 10 # EvKeyringList ?r # evs)"
      using evs(3) by simp
    ultimately show ?thesis by blast
  qed
  have short: ?goal
    if "snd (rotatoe_pollLoop E k i tr) = tr @ [EvSleep 10, EvKeyringList ?r]"
  proof -
    have "\<forall>seen. promoteAfter (listed k) seen [EvSleep 10, EvKeyringList ?r]"
      by simp
    moreover have "\<forall>x r. EvKeyringRemove x r \<notin> set [EvSleep 10, EvKeyringList ?r]"
      by simp
    ultimately show ?thesis using that by blast
  qed
  show ?case
  proof (cases "i < 100")
    case False
    then show ?thesis by (subst rotatoe_pollLoop.simps) simp
  next
    case True
    show ?thesis
    proof (cases ?r)
      case (Inl err)
      have ih: "\<exists>evs. snd (rotatoe_pollLoop E k (i + 1) ?tr2) = ?tr2 @ evs
            \<and> (\<forall>seen. promoteAfter (listed k) seen evs)
            \<and> (\<forall>x r. EvKeyringRemove x r \<notin> set evs)"
        using "1.IH"(1) [of "Inl err" ?tr2 err] True Inl by (simp add: call_defs)
      have "snd (rotatoe_pollLoop E k i tr) = snd (rotatoe_pollLoop E k (i + 1) ?tr2)"
        using True Inl by (subst rotatoe_pollLoop.simps) (simp add: call_defs)
      then show ?thesis using ih by (rule step)
    next
      case (Inr keyringList)
      show ?thesis
      proof (cases keyringList)
        case Nil
        have "snd (rotatoe_pollLoop E k i tr) = tr @ [EvSleep 10, EvKeyringList ?r]"
          using True Inr Nil by (subst rotatoe_pollLoop.simps) (simp add: call_defs)
        then show ?thesis by (rule short)
      next
        case (Cons p0 rest)
        show ?thesis
        proof (cases p0)
          case None
          have "snd (rotatoe_pollLoop E k i tr) = tr @ [EvSleep 10, EvKeyringList ?r]"
            using True Inr Cons None by (subst rotatoe_pollLoop.simps) (simp add: call_defs)
          then show ?thesis by (rule short)
        next
          case (Some r0)
          show ?thesis
          proof (cases "k \<in> set (map fst (Keys r0))")
            case present: True
            then have l: "listed k ?r" using Inr Cons Some by (simp add: listed_def)
            have "snd (rotatoe_pollLoop E k i tr)
                = tr @ [EvSleep 10, EvKeyringList ?r, EvKeyringUse k (respKeyringUse E ?tr2 k)]"
              using True Inr Cons Some present
              by (subst rotatoe_pollLoop.simps) (simp add: call_defs)
            moreover have "\<forall>seen. promoteAfter (listed k) seen
                [EvSleep 10, EvKeyringList ?r, EvKeyringUse k (respKeyringUse E ?tr2 k)]"
              using l by simp
            moreover have "\<forall>x r. EvKeyringRemove x r
                \<notin> set [EvSleep 10, EvKeyringList ?r, EvKeyringUse k (respKeyringUse E ?tr2 k)]"
              by simp
            ultimately show ?thesis by blast
          next
            case absent: False
            have ih: "\<exists>evs. snd (rotatoe_pollLoop E k (i + 1) ?tr2) = ?tr2 @ evs
                \<and> (\<forall>seen. promoteAfter (listed k) seen evs)
                \<and> (\<forall>x r. EvKeyringRemove x r \<notin> set evs)"
              using "1.IH"(2) [of "Inr keyringList" ?tr2 keyringList p0 rest r0]
                True Inr Cons Some absent
              by (simp add: call_defs)
            have "snd (rotatoe_pollLoop E k i tr) = snd (rotatoe_pollLoop E k (i + 1) ?tr2)"
              using True Inr Cons Some absent
              by (subst rotatoe_pollLoop.simps) (simp add: call_defs)
            then show ?thesis using ih by (rule step)
          qed
        qed
      qed
    qed
  qed
qed

lemma rotatoe_pollLoop_promote:
  "\<exists>evs. snd (rotatoe_pollLoop E k i tr) = tr @ evs \<and> (\<forall>seen. promoteAfter (listed k) seen evs)"
  using rotatoe_pollLoop_emits [of E k i tr] by blast

lemma rotatoe_pollLoop_no_remove:
  "\<exists>evs. snd (rotatoe_pollLoop E k i tr) = tr @ evs \<and> (\<forall>x r. EvKeyringRemove x r \<notin> set evs)"
  using rotatoe_pollLoop_emits [of E k i tr] by blast

subsection \<open>Promotion and the propagation of the new key\<close>

text \<open>
  Claim C2, as the specification states it: \<open>KeyringUse\<close> on the new key is called only
  after a \<open>KeyringList\<close> observation in which the new key is reported by as many members
  as the response counts nodes. Both programs fail it. In a cluster of three members where
  the new key has reached one member, each of them promotes the key on the first poll.
\<close>

theorem promote_before_propagation:
  "\<not> promoteAfter (propagated ''k2'') False
        (emitted [] (snd (rotationsidecar_installKey envPartial ''k2'' [])))
   \<and> \<not> promoteAfter (propagated ''k2'') False
        (emitted [] (snd (rotatoe_installKey envPartial ''k2'' [])))"
  by (simp add: run_defs call_defs env_defs keyringPartial_def propagated_def)

text \<open>
  Claim C2, amended: in both programs every \<open>KeyringUse\<close> of an \<open>installKey\<close> run comes
  after a \<open>KeyringList\<close> of the same run whose first response lists the new key. The
  test is one of presence; no count is compared.
\<close>

theorem promote_only_after_listed:
  "promoteAfter (listed newKey) False (emitted tr (snd (rotationsidecar_installKey E newKey tr)))
   \<and> promoteAfter (listed newKey) False (emitted tr (snd (rotatoe_installKey E newKey tr)))"
proof
  show "promoteAfter (listed newKey) False (emitted tr (snd (rotationsidecar_installKey E newKey tr)))"
  proof (cases "respKeyringList E tr")
    case (Inl err)
    then show ?thesis by (simp add: rotationsidecar_installKey_def call_defs)
  next
    case (Inr olds)
    show ?thesis
    proof (cases olds)
      case Nil
      with Inr show ?thesis by (simp add: rotationsidecar_installKey_def call_defs)
    next
      case (Cons p0 rest)
      let ?tr1 = "tr @ [EvKeyringList (respKeyringList E tr)]"
      let ?tr2 = "?tr1 @ [EvKeyringInstall newKey (respKeyringInstall E ?tr1 newKey)]"
      show ?thesis
      proof (cases p0)
        case nil: None
        with Inr Cons show ?thesis by (simp add: rotationsidecar_installKey_def call_defs)
      next
        case (Some old0)
        note first = this
        show ?thesis
        proof (cases "respKeyringInstall E ?tr1 newKey")
          case (Some err)
          with Inr Cons first show ?thesis by (simp add: rotationsidecar_installKey_def call_defs)
        next
          case None
          obtain evs where evs: "snd (rotationsidecar_pollLoop E newKey 0 ?tr2) = ?tr2 @ evs"
              "\<forall>seen. promoteAfter (listed newKey) seen evs"
            using sidecar_pollLoop_promote by blast
          have "snd (rotationsidecar_installKey E newKey tr)
              = tr @ (EvKeyringList (respKeyringList E tr) # EvKeyringInstall newKey None # evs)"
            using Inr Cons first None evs(1) by (simp add: rotationsidecar_installKey_def call_defs)
          with evs(2) show ?thesis by simp
        qed
      qed
    qed
  qed
next
  let ?tr1 = "tr @ [EvKeyringInstall newKey (respKeyringInstall E tr newKey)]"
  obtain evs where evs: "snd (rotatoe_pollLoop E newKey 0 ?tr1) = ?tr1 @ evs"
      "\<forall>seen. promoteAfter (listed newKey) seen evs"
    using rotatoe_pollLoop_promote by blast
  have "snd (rotatoe_installKey E newKey tr)
      = tr @ (EvKeyringInstall newKey (respKeyringInstall E tr newKey) # evs)"
    using evs(1) by (simp add: rotatoe_installKey_def call_defs)
  with evs(2) show "promoteAfter (listed newKey) False (emitted tr (snd (rotatoe_installKey E newKey tr)))"
    by simp
qed


subsection \<open>Removal and promotion\<close>

text \<open>
  Claim C1: no \<open>KeyringRemove\<close> of an old key before \<open>KeyringUse\<close> of the new key has
  succeeded. The rotation sidecar breaks it: when \<open>KeyringUse\<close> fails, the \<open>continue\<close>
  goes on with the \<open>range\<close> loop it stands in, and the second loop removes the old key
  in the same poll. The run below is the one of a cluster where both keys are listed and
  every \<open>KeyringUse\<close> fails.
\<close>

theorem rotationsidecar_removes_after_failed_promotion:
  "rotationsidecar_installKey envPromoteFails ''k2'' [] =
     (Inr None,
      [EvKeyringList (Inr [Some keyringBoth]), EvKeyringInstall ''k2'' None, EvSleep 1,
       EvKeyringList (Inr [Some keyringBoth]), EvKeyringUse ''k2'' (Some ''rpc error''),
       EvKeyringRemove ''k1'' None])
   \<and> \<not> removeAfterPromote ''k2'' False
         (emitted [] (snd (rotationsidecar_installKey envPromoteFails ''k2'' [])))"
  by (simp add: run_defs call_defs env_defs keyringBoth_def)

text \<open>
  The same happens when the new key is not listed at all: no promotion is tried and the
  old key is removed (here the removal fails, which is logged).
\<close>

lemma rotationsidecar_removes_without_promotion:
  "rotationsidecar_installKey envNotListed ''k2'' [] =
     (Inr None,
      [EvKeyringList (Inr [Some keyringOld]), EvKeyringInstall ''k2'' None, EvSleep 1,
       EvKeyringList (Inr [Some keyringOld]), EvKeyringRemove ''k1'' (Some ''rpc error'')])"
  by (simp add: run_defs call_defs env_defs keyringOld_def)

text \<open>
  rotatoe keeps the order of claim C1 for want of any removal: it never calls
  \<open>KeyringRemove\<close>.
\<close>

lemma no_remove_removeAfterPromote:
  "(\<forall>x r. EvKeyringRemove x r \<notin> set evs) \<Longrightarrow> removeAfterPromote k promoted evs"
proof (induction evs arbitrary: promoted)
  case Nil
  show ?case by simp
next
  case (Cons e evs)
  then show ?case by (cases e) auto
qed

lemma rotatoe_installKey_never_removes:
  "removeAfterPromote newKey False (emitted tr (snd (rotatoe_installKey E newKey tr)))"
proof -
  let ?tr1 = "tr @ [EvKeyringInstall newKey (respKeyringInstall E tr newKey)]"
  obtain evs where evs: "snd (rotatoe_pollLoop E newKey 0 ?tr1) = ?tr1 @ evs"
      "\<forall>x r. EvKeyringRemove x r \<notin> set evs"
    using rotatoe_pollLoop_no_remove by blast
  have "snd (rotatoe_installKey E newKey tr)
      = tr @ (EvKeyringInstall newKey (respKeyringInstall E tr newKey) # evs)"
    using evs(1) by (simp add: rotatoe_installKey_def call_defs)
  moreover have "removeAfterPromote newKey False
      (EvKeyringInstall newKey (respKeyringInstall E tr newKey) # evs)"
    using evs(2) by (simp add: no_remove_removeAfterPromote)
  ultimately show ?thesis by simp
qed

subsection \<open>Panics\<close>

text \<open>
  Claim C8: no answer of the keyring API crashes the process. Both programs index the
  answer of \<open>KeyringList\<close> at \<open>[0]\<close> without a test of its length, so a successful
  call that returns no response panics: in the rotation sidecar at the first list of
  \<open>installKey\<close>, in rotatoe at the first poll; and the pass of the loop that called
  \<open>installKey\<close> ends in the panic.
\<close>

theorem installKey_panics_on_empty_list:
  "rotationsidecar_installKey envEmptyList ''k2'' [] =
     (Inl IndexOutOfRange, [EvKeyringList (Inr [])])
   \<and> rotatoe_installKey envEmptyList ''k2'' [] =
     (Inl IndexOutOfRange, [EvKeyringInstall ''k2'' None, EvSleep 10, EvKeyringList (Inr [])])
   \<and> fst (rotationsidecar_Run_select envEmptyList ''10.0.0.7'' (WatcherEvents writeEvent)
        (md5_Sum ''k1'') []) = Panicked IndexOutOfRange
   \<and> fst (rotatoe_Run_pass envEmptyList
        (crc32_Checksum ''k1'' (crc32_MakeTable crc32_Castagnoli)) []) = Panicked IndexOutOfRange"
  by (simp add: run_defs call_defs env_defs md5_Sum_k1 md5_Sum_k2
      crc32_Checksum_k1 crc32_Checksum_k2)

subsection \<open>The loop and the shutdown signal\<close>

lemma rotationsidecar_Run_select_never_exits:
  "fst (rotationsidecar_Run_select E podIP sel currentChecksum tr) \<noteq> Exited code"
  by (auto simp: rotationsidecar_Run_select_def rotationsidecar_caseWrite_def call_defs Let_def
      split: selected.splits sum.splits prod.splits option.splits if_splits)

text \<open>
  Claim C6: when the loop observes the shutdown signal it ends the current attempt and
  exits, and does not iterate any further. The program breaks it: the \<open>break\<close> of the
  \<open>sigCh\<close> case leaves the \<open>select\<close>, the \<open>for\<close> loop goes on, and the statements
  after the loop are never reached. In the runs below the file holds \<open>k1\<close> at the start
  and \<open>k2\<close> later. After the signal alone the loop is waiting in its \<open>select\<close> again;
  when a write event follows the signal, the loop handles it with a whole rotation and
  commits the checksum of \<open>k2\<close>.
\<close>

theorem rotationsidecar_loop_runs_on_after_signal:
  "rotationsidecar_Run envFileChanges ''10.0.0.7'' [SigCh]
     = (Continue (md5_Sum ''k1''), [EvReadFile (''k1'', None)])
   \<and> rotationsidecar_Run envFileChanges ''10.0.0.7'' [SigCh, WatcherEvents writeEvent] =
     (Continue (md5_Sum ''k2''),
      [EvReadFile (''k1'', None),
       EvLeader (Inr ''10.0.0.7:8300''), EvReadFile (''k2'', None),
       EvKeyringList (Inr [Some keyringBoth]), EvKeyringInstall ''k2'' None, EvSleep 1,
       EvKeyringList (Inr [Some keyringBoth]), EvKeyringUse ''k2'' None, EvKeyringRemove ''k1'' None])"
  by (simp add: run_defs call_defs env_defs keyringBoth_def md5_Sum_k1 md5_Sum_k2)

subsection \<open>The timer\<close>

lemma rotationsidecar_timer_only_logs:
  "rotationsidecar_Run_select E podIP TimeAfter currentChecksum tr = (Continue currentChecksum, tr)"
  by (simp add: rotationsidecar_Run_select_def)

text \<open>
  Claim C7: on every expiry of the timer the loop reads the watched file and compares
  its fingerprint with the committed one, whether or not a watcher event has fired. The
  program breaks it: the case of \<open>time.After\<close> holds one log call, ``Reconcile Timer.'',
  and nothing that reconciles. With \<open>k1\<close> committed and \<open>k2\<close> in the file, the pass of the
  timer reads nothing; and a run whose file changes to \<open>k2\<close> after start-up and that
  receives timer expiries only never reads the file again and keeps \<open>k1\<close> committed.
\<close>

theorem rotationsidecar_timer_reads_nothing:
  "md5_Sum (fst (respReadFile envHealthy [])) \<noteq> md5_Sum ''k1''
   \<and> filter fileRead (emitted [] (snd (rotationsidecar_Run_select envHealthy ''10.0.0.7''
         TimeAfter (md5_Sum ''k1'') []))) = []
   \<and> respReadFile envFileChanges [EvReadFile (''k1'', None)] = (''k2'', None)
   \<and> rotationsidecar_Run envFileChanges ''10.0.0.7'' [TimeAfter, TimeAfter]
       = (Continue (md5_Sum ''k1''), [EvReadFile (''k1'', None)])"
  by (simp add: run_defs call_defs env_defs md5_Sum_k1 md5_Sum_k2)

subsection \<open>The leadership gate\<close>

text \<open>
  Claim C3, as the specification states it, for both programs: a pass on which the
  leadership check does not authorize the instance makes no mutating keyring call.
  rotatoe has no leadership check: in a cluster whose leader cannot be determined its
  pass installs and promotes the key of the file.
\<close>

theorem rotatoe_mutates_without_leader:
  "\<not> authorized (respLeader envNoLeader []) ''10.0.0.7''
   \<and> filter mutating (emitted [] (snd (rotatoe_Run_pass envNoLeader
         (crc32_Checksum ''k1'' (crc32_MakeTable crc32_Castagnoli)) [])))
       = [EvKeyringInstall ''k2'' None, EvKeyringUse ''k2'' None]"
  by (simp add: run_defs call_defs env_defs authorized_def keyringBoth_def
      crc32_Checksum_k1 crc32_Checksum_k2)

text \<open>
  Claim C3, amended to the rotation sidecar: on every pass of its loop on which the
  leadership check does not authorize the instance (no leader is reported, the call
  failed, or the address before the colon is not the pod's), no \<open>KeyringInstall\<close>,
  \<open>KeyringUse\<close> or \<open>KeyringRemove\<close> is made.
\<close>

theorem rotationsidecar_unauthorized_no_mutation:
  assumes "\<not> authorized (respLeader E tr) podIP"
  shows "filter mutating
      (emitted tr (snd (rotationsidecar_Run_select E podIP sel currentChecksum tr))) = []"
proof (cases sel)
  case (WatcherEvents event)
  with assms show ?thesis
    by (cases "respLeader E tr")
      (auto simp: rotationsidecar_Run_select_def authorized_def Leader_def)
qed (simp_all add: rotationsidecar_Run_select_def)

text \<open>
  Claim C3, at a concrete input: the call for the leader fails, a write event arrives and
  the file holds a new key.
\<close>

theorem rotationsidecar_unauthorized_no_mutation_witness:
  "\<not> authorized (respLeader envNoLeader []) ''10.0.0.7''
   \<and> filter mutating (emitted [] (snd (rotationsidecar_Run_select envNoLeader ''10.0.0.7''
        (WatcherEvents writeEvent) (md5_Sum ''k1'') []))) = []"
proof -
  have h: "\<not> authorized (respLeader envNoLeader []) ''10.0.0.7''"
    by (simp add: authorized_def env_defs)
  show ?thesis
    using h rotationsidecar_unauthorized_no_mutation [OF h] by simp
qed

subsection \<open>Detection\<close>


lemma rotatoe_Run_loop_numeral:
  "rotatoe_Run_loop E (numeral n) currentCRC tr =
     (case rotatoe_Run_pass E currentCRC tr of
        (Continue crc, tr') \<Rightarrow> rotatoe_Run_loop E (pred_numeral n) crc tr'
      | (Blocked, tr') \<Rightarrow> (Blocked, tr')
      | (Panicked p, tr') \<Rightarrow> (Panicked p, tr')
      | (Exited code, tr') \<Rightarrow> (Exited code, tr'))"
  by (simp add: numeral_eq_Suc)

text \<open>
  A pass on a watcher event: the write case at the read point when the instance is
  authorized and the event has the remove or the write bit; the answer of \<open>Leader\<close> and
  nothing else otherwise.
\<close>

lemma select_WatcherEvents:
  "rotationsidecar_Run_select E podIP (WatcherEvents event) cs tr =
     (if authorized (respLeader E tr) podIP
         \<and> (Op event AND fsnotify_Write = fsnotify_Write
             \<or> Op event AND fsnotify_Remove = fsnotify_Remove)
      then rotationsidecar_caseWrite E cs (rotationsidecar_readPoint E event tr)
      else (Continue cs, tr @ [EvLeader (respLeader E tr)]))"
  by (cases "respLeader E tr")
    (auto simp: rotationsidecar_Run_select_def rotationsidecar_readPoint_def authorized_def
      Leader_def WatcherAdd_def)

lemma readPoint_emits:
  "\<exists>evs. rotationsidecar_readPoint E event tr = tr @ evs \<and> filter keyringCall evs = []"
  by (simp add: rotationsidecar_readPoint_def Leader_def WatcherAdd_def)


lemma caseWrite_read_error:
  assumes "snd (respReadFile E h) \<noteq> None"
  shows "rotationsidecar_caseWrite E cs h = (Continue cs, h @ [EvReadFile (respReadFile E h)])"
  using assms
  by (cases "respReadFile E h") (auto simp: rotationsidecar_caseWrite_def ReadFile_def)

text \<open>The write case commits a checksum only with the \<open>nil\<close> of \<open>installKey\<close>.\<close>

lemma caseWrite_commit:
  assumes "rotationsidecar_caseWrite E cs h = (Continue cs', tr')" and "cs' \<noteq> cs"
  shows "\<exists>data. respReadFile E h = (data, None) \<and> cs' = md5_Sum data
      \<and> rotationsidecar_installKey E data (h @ [EvReadFile (data, None)]) = (Inr None, tr')"
  using assms
  by (cases "respReadFile E h")
    (auto simp: rotationsidecar_caseWrite_def ReadFile_def Let_def
      split: option.splits sum.splits prod.splits if_splits)

text \<open>
  The write case on content whose checksum is not the committed one: \<open>installKey\<close> runs
  on that content, and its result decides the checksum.
\<close>

lemma caseWrite_changed:
  assumes "respReadFile E h = (data, None)" and "md5_Sum data \<noteq> cs"
  shows "rotationsidecar_caseWrite E cs h =
      (case rotationsidecar_installKey E data (h @ [EvReadFile (data, None)]) of
         (Inl p, t) \<Rightarrow> (Panicked p, t)
       | (Inr None, t) \<Rightarrow> (Continue (md5_Sum data), t)
       | (Inr (Some err), t) \<Rightarrow> (Continue cs, t))"
  using assms by (simp add: rotationsidecar_caseWrite_def ReadFile_def)

lemma caseWrite_trace:
  assumes "respReadFile E h = (data, None)" and "md5_Sum data \<noteq> cs"
  shows "snd (rotationsidecar_caseWrite E cs h)
      = snd (rotationsidecar_installKey E data (h @ [EvReadFile (data, None)]))"
  using assms
  by (auto simp: caseWrite_changed split: prod.splits sum.splits option.splits)

lemma select_commit:
  assumes "rotationsidecar_Run_select E podIP sel cs tr = (Continue cs', tr')" and "cs' \<noteq> cs"
  shows "\<exists>data h. respReadFile E h = (data, None) \<and> cs' = md5_Sum data
      \<and> rotationsidecar_installKey E data (h @ [EvReadFile (data, None)]) = (Inr None, tr')"
proof (cases sel)
  case (WatcherEvents event)
  from assms have "\<exists>h. rotationsidecar_caseWrite E cs h = (Continue cs', tr')"
    unfolding WatcherEvents select_WatcherEvents by (auto split: if_splits)
  then show ?thesis using caseWrite_commit [OF _ assms(2)] by blast
qed (use assms in \<open>simp_all add: rotationsidecar_Run_select_def\<close>)

lemma select_changed:
  assumes "authorized (respLeader E tr) podIP"
    and "Op event AND fsnotify_Write = fsnotify_Write
        \<or> Op event AND fsnotify_Remove = fsnotify_Remove"
    and "respReadFile E (rotationsidecar_readPoint E event tr) = (data, None)"
    and "md5_Sum data \<noteq> cs"
  shows "rotationsidecar_Run_select E podIP (WatcherEvents event) cs tr =
      (case rotationsidecar_installKey E data
              (rotationsidecar_readPoint E event tr @ [EvReadFile (data, None)]) of
         (Inl p, t) \<Rightarrow> (Panicked p, t)
       | (Inr None, t) \<Rightarrow> (Continue (md5_Sum data), t)
       | (Inr (Some err), t) \<Rightarrow> (Continue cs, t))"
  using assms by (simp add: select_WatcherEvents caseWrite_changed)

text \<open>
  Claim C4, as the specification states it: a read that returns an error or an empty
  buffer is reported as unchanged and starts no rotation, and an empty buffer is never
  installed as a key. The rotation sidecar has no test for an empty buffer: with \<open>k1\<close>
  committed and an empty file it installs the empty key, and since the keyring does not
  list the empty key yet, it removes both real keys in the first poll.
\<close>

theorem rotationsidecar_installs_empty_buffer:
  "rotationsidecar_Run_select envEmptyFile ''10.0.0.7'' (WatcherEvents writeEvent)
      (md5_Sum ''k1'') [] =
     (Continue (md5_Sum []),
      [EvLeader (Inr ''10.0.0.7:8300''), EvReadFile ([], None),
       EvKeyringList (Inr [Some keyringBoth]), EvKeyringInstall [] None, EvSleep 1,
       EvKeyringList (Inr [Some keyringBoth]), EvKeyringRemove ''k1'' None,
       EvKeyringRemove ''k2'' None])"
  by (simp add: run_defs call_defs env_defs keyringBoth_def md5_Sum_k1 md5_Sum_empty)

text \<open>
  Claim C4, amended to what the rotation sidecar does, for one pass of its loop on a
  watcher event. When the read of the watched file in that pass returns an error, the
  pass makes no keyring call and goes on with the committed checksum. An empty buffer read
  without an error is content like any other: when the instance is authorized, the event
  has the write or the remove bit, the read of the pass returns the empty buffer and the
  committed checksum is not the one of the empty buffer, the pass runs \<open>installKey\<close> on
  the empty key. The read of the pass is the answer of \<open>ReadFile\<close> at the read point;
  nothing is assumed of any other read or of any other answer of \<open>Leader\<close>.
\<close>

theorem rotationsidecar_read_error_unchanged:
  "(snd (respReadFile E (rotationsidecar_readPoint E event tr)) \<noteq> None
    \<longrightarrow> fst (rotationsidecar_Run_select E podIP (WatcherEvents event) currentChecksum tr)
          = Continue currentChecksum
        \<and> filter keyringCall (emitted tr
            (snd (rotationsidecar_Run_select E podIP (WatcherEvents event) currentChecksum tr)))
          = [])
   \<and> (authorized (respLeader E tr) podIP
        \<and> (Op event AND fsnotify_Write = fsnotify_Write
            \<or> Op event AND fsnotify_Remove = fsnotify_Remove)
        \<and> respReadFile E (rotationsidecar_readPoint E event tr) = ([], None)
        \<and> md5_Sum [] \<noteq> currentChecksum
    \<longrightarrow> snd (rotationsidecar_Run_select E podIP (WatcherEvents event) currentChecksum tr)
          = snd (rotationsidecar_installKey E []
              (rotationsidecar_readPoint E event tr @ [EvReadFile ([], None)])))"
proof (intro conjI impI)
  assume err: "snd (respReadFile E (rotationsidecar_readPoint E event tr)) \<noteq> None"
  obtain evs where evs: "rotationsidecar_readPoint E event tr = tr @ evs"
      "filter keyringCall evs = []"
    using readPoint_emits by blast
  have run: "rotationsidecar_Run_select E podIP (WatcherEvents event) currentChecksum tr
      = (Continue currentChecksum,
         rotationsidecar_readPoint E event tr
           @ [EvReadFile (respReadFile E (rotationsidecar_readPoint E event tr))])
    \<or> rotationsidecar_Run_select E podIP (WatcherEvents event) currentChecksum tr
      = (Continue currentChecksum, tr @ [EvLeader (respLeader E tr)])"
    using err by (simp add: select_WatcherEvents caseWrite_read_error)
  from run show "fst (rotationsidecar_Run_select E podIP (WatcherEvents event) currentChecksum tr)
      = Continue currentChecksum"
    by auto
  from run evs show "filter keyringCall (emitted tr
      (snd (rotationsidecar_Run_select E podIP (WatcherEvents event) currentChecksum tr))) = []"
    by auto
next
  assume "authorized (respLeader E tr) podIP
        \<and> (Op event AND fsnotify_Write = fsnotify_Write
            \<or> Op event AND fsnotify_Remove = fsnotify_Remove)
        \<and> respReadFile E (rotationsidecar_readPoint E event tr) = ([], None)
        \<and> md5_Sum [] \<noteq> currentChecksum"
  then show "snd (rotationsidecar_Run_select E podIP (WatcherEvents event) currentChecksum tr)
      = snd (rotationsidecar_installKey E []
          (rotationsidecar_readPoint E event tr @ [EvReadFile ([], None)]))"
    by (simp add: select_WatcherEvents caseWrite_trace)
qed

text \<open>
  Claim C4, at concrete inputs, both after a start-up that read \<open>k1\<close>: a write event when
  the file has vanished, and a write event when the file has been emptied. The runs of
  \<open>Run\<close> that reach these passes are given beside them.
\<close>

theorem rotationsidecar_read_error_unchanged_witness:
  "snd (respReadFile envFileVanishes
        (rotationsidecar_readPoint envFileVanishes writeEvent [EvReadFile (''k1'', None)])) \<noteq> None
   \<and> fst (rotationsidecar_Run_select envFileVanishes ''10.0.0.7'' (WatcherEvents writeEvent)
        (md5_Sum ''k1'') [EvReadFile (''k1'', None)]) = Continue (md5_Sum ''k1'')
   \<and> filter keyringCall (emitted [EvReadFile (''k1'', None)]
        (snd (rotationsidecar_Run_select envFileVanishes ''10.0.0.7'' (WatcherEvents writeEvent)
           (md5_Sum ''k1'') [EvReadFile (''k1'', None)]))) = []
   \<and> rotationsidecar_Run envFileVanishes ''10.0.0.7'' [WatcherEvents writeEvent]
       = (Continue (md5_Sum ''k1''),
          [EvReadFile (''k1'', None), EvLeader (Inr ''10.0.0.7:8300''),
           EvReadFile ([], Some ''no such file'')])
   \<and> authorized (respLeader envFileEmptied [EvReadFile (''k1'', None)]) ''10.0.0.7''
   \<and> Op writeEvent AND fsnotify_Write = fsnotify_Write
   \<and> respReadFile envFileEmptied
        (rotationsidecar_readPoint envFileEmptied writeEvent [EvReadFile (''k1'', None)])
       = ([], None)
   \<and> md5_Sum [] \<noteq> md5_Sum ''k1''
   \<and> snd (rotationsidecar_Run_select envFileEmptied ''10.0.0.7'' (WatcherEvents writeEvent)
        (md5_Sum ''k1'') [EvReadFile (''k1'', None)])
       = snd (rotationsidecar_installKey envFileEmptied []
           (rotationsidecar_readPoint envFileEmptied writeEvent [EvReadFile (''k1'', None)]
              @ [EvReadFile ([], None)]))
   \<and> rotationsidecar_Run envFileEmptied ''10.0.0.7'' [WatcherEvents writeEvent]
       = (Continue (md5_Sum []),
          [EvReadFile (''k1'', None), EvLeader (Inr ''10.0.0.7:8300''), EvReadFile ([], None),
           EvKeyringList (Inr [Some keyringBoth]), EvKeyringInstall [] None, EvSleep 1,
           EvKeyringList (Inr [Some keyringBoth]), EvKeyringRemove ''k1'' None,
           EvKeyringRemove ''k2'' None])"
proof -
  have err: "snd (respReadFile envFileVanishes
      (rotationsidecar_readPoint envFileVanishes writeEvent [EvReadFile (''k1'', None)])) \<noteq> None"
    by (simp add: rotationsidecar_readPoint_def call_defs env_defs writeEvent_def
        fsnotify_Write_def fsnotify_Remove_def)
  have run1: "rotationsidecar_Run envFileVanishes ''10.0.0.7'' [WatcherEvents writeEvent]
       = (Continue (md5_Sum ''k1''),
          [EvReadFile (''k1'', None), EvLeader (Inr ''10.0.0.7:8300''),
           EvReadFile ([], Some ''no such file'')])"
    by (simp add: run_defs call_defs env_defs md5_Sum_k1)
  have auth: "authorized (respLeader envFileEmptied [EvReadFile (''k1'', None)]) ''10.0.0.7''"
    by (simp add: env_defs authorized_def)
  have wr: "Op writeEvent AND fsnotify_Write = fsnotify_Write"
    by (simp add: writeEvent_def)
  have rd: "respReadFile envFileEmptied
      (rotationsidecar_readPoint envFileEmptied writeEvent [EvReadFile (''k1'', None)])
      = ([], None)"
    by (simp add: rotationsidecar_readPoint_def call_defs env_defs writeEvent_def
        fsnotify_Write_def fsnotify_Remove_def)
  have ne: "md5_Sum [] \<noteq> md5_Sum ''k1''"
    by (simp add: md5_Sum_k1 md5_Sum_empty)
  have run2: "rotationsidecar_Run envFileEmptied ''10.0.0.7'' [WatcherEvents writeEvent]
       = (Continue (md5_Sum []),
          [EvReadFile (''k1'', None), EvLeader (Inr ''10.0.0.7:8300''), EvReadFile ([], None),
           EvKeyringList (Inr [Some keyringBoth]), EvKeyringInstall [] None, EvSleep 1,
           EvKeyringList (Inr [Some keyringBoth]), EvKeyringRemove ''k1'' None,
           EvKeyringRemove ''k2'' None])"
    by (simp add: run_defs call_defs env_defs keyringBoth_def md5_Sum_k1 md5_Sum_empty)
  note first = rotationsidecar_read_error_unchanged
    [of envFileVanishes writeEvent "[EvReadFile (''k1'', None)]" "''10.0.0.7''" "md5_Sum ''k1''",
      THEN conjunct1, THEN mp, OF err]
  have prem: "authorized (respLeader envFileEmptied [EvReadFile (''k1'', None)]) ''10.0.0.7''
      \<and> (Op writeEvent AND fsnotify_Write = fsnotify_Write
          \<or> Op writeEvent AND fsnotify_Remove = fsnotify_Remove)
      \<and> respReadFile envFileEmptied
          (rotationsidecar_readPoint envFileEmptied writeEvent [EvReadFile (''k1'', None)])
          = ([], None)
      \<and> md5_Sum [] \<noteq> md5_Sum ''k1''"
    using auth wr rd ne by simp
  note second = rotationsidecar_read_error_unchanged
    [of envFileEmptied writeEvent "[EvReadFile (''k1'', None)]" "''10.0.0.7''" "md5_Sum ''k1''",
      THEN conjunct2, THEN mp, OF prem]
  show ?thesis
    using err first run1 auth wr rd ne second run2 by simp
qed

subsection \<open>Unchanged content\<close>







subsection \<open>When the checksum is committed\<close>

lemma rotatoe_pass_commits_at_detection:
  assumes "rotatoe_Run_pass E currentCRC tr = (Continue crc, tr')"
  shows "crc = crc32_Checksum (fst (respReadFile E (tr @ [EvSleep 10])))
      (crc32_MakeTable crc32_Castagnoli)"
  using assms
  by (cases "respReadFile E (tr @ [EvSleep 10])")
    (auto simp: rotatoe_Run_pass_def ReadFile_def Sleep_def Let_def
      split: if_splits prod.splits sum.splits)

text \<open>
  Claim C5, as the specification states it: the committed fingerprint changes only after
  a rotation attempt has succeeded, never at detection and never when the attempt fails,
  so a failed attempt is detected and retried on the next tick. Both programs fail it
  when the file changes from \<open>k1\<close> to \<open>k2\<close> in a cluster where every \<open>KeyringUse\<close>
  fails. rotatoe assigns \<open>currentCRC\<close> before it calls \<open>installKey\<close>: its later passes
  read the same file and do nothing. The rotation sidecar commits on the \<open>nil\<close> that
  \<open>installKey\<close> returns after the failed promotion: its second pass does nothing either.
\<close>

theorem checksum_committed_without_success:
  "rotatoe_Run envFileChangesPromoteFails 3 =
     (Continue (crc32_Checksum ''k2'' (crc32_MakeTable crc32_Castagnoli)),
      [EvSleep 10, EvReadFile (''k1'', None),
       EvSleep 10, EvReadFile (''k2'', None), EvKeyringInstall ''k2'' None, EvSleep 10,
       EvKeyringList (Inr [Some keyringBoth]), EvKeyringUse ''k2'' (Some ''rpc error''),
       EvSleep 10, EvReadFile (''k2'', None),
       EvSleep 10, EvReadFile (''k2'', None)])
   \<and> rotationsidecar_Run envFileChangesPromoteFails ''10.0.0.7''
       [WatcherEvents writeEvent, WatcherEvents writeEvent] =
     (Continue (md5_Sum ''k2''),
      [EvReadFile (''k1'', None),
       EvLeader (Inr ''10.0.0.7:8300''), EvReadFile (''k2'', None),
       EvKeyringList (Inr [Some keyringBoth]), EvKeyringInstall ''k2'' None, EvSleep 1,
       EvKeyringList (Inr [Some keyringBoth]), EvKeyringUse ''k2'' (Some ''rpc error''),
       EvKeyringRemove ''k1'' None,
       EvLeader (Inr ''10.0.0.7:8300''), EvReadFile (''k2'', None)])"
  by (simp add: rotatoe_Run_loop_numeral run_defs call_defs env_defs keyringBoth_def
      crc32_Checksum_k1 crc32_Checksum_k2 md5_Sum_k1 md5_Sum_k2)

text \<open>
  Claim C5, amended to what the programs do. In the rotation sidecar the committed
  checksum changes in a pass only when \<open>installKey\<close> has returned \<open>nil\<close> in that pass, and
  then to the checksum of the content \<open>installKey\<close> was called with: never at detection,
  never when \<open>installKey\<close> returns an error or panics. So after any pass that has left
  committed a checksum other than the one of the content \<open>data\<close>, the next pass that is
  authorized, is on a write or remove event and reads \<open>data\<close> runs \<open>installKey\<close> on
  \<open>data\<close> again, and commits its checksum on \<open>nil\<close> only. The conditions on the second
  pass are on its own answer of \<open>Leader\<close> and its own read; the first pass is any pass
  (not authorized, with a failed read, with a failed attempt). In rotatoe the checksum
  after a pass is the one of the bytes just read, whatever \<open>installKey\<close> did.
\<close>

theorem checksum_committed_after_installKey:
  "(rotationsidecar_Run_select E podIP sel currentChecksum tr = (Continue checksum, tr')
      \<and> checksum \<noteq> currentChecksum
    \<longrightarrow> (\<exists>data h. respReadFile E h = (data, None) \<and> checksum = md5_Sum data
          \<and> rotationsidecar_installKey E data (h @ [EvReadFile (data, None)]) = (Inr None, tr')))
   \<and> (rotationsidecar_Run_select E podIP sel currentChecksum tr = (Continue checksum, tr')
        \<and> checksum \<noteq> md5_Sum data
        \<and> authorized (respLeader E tr') podIP
        \<and> (Op event AND fsnotify_Write = fsnotify_Write
            \<or> Op event AND fsnotify_Remove = fsnotify_Remove)
        \<and> respReadFile E (rotationsidecar_readPoint E event tr') = (data, None)
    \<longrightarrow> rotationsidecar_Run_select E podIP (WatcherEvents event) checksum tr' =
          (case rotationsidecar_installKey E data
                  (rotationsidecar_readPoint E event tr' @ [EvReadFile (data, None)]) of
             (Inl p, t) \<Rightarrow> (Panicked p, t)
           | (Inr None, t) \<Rightarrow> (Continue (md5_Sum data), t)
           | (Inr (Some err), t) \<Rightarrow> (Continue checksum, t)))
   \<and> (rotatoe_Run_pass E currentCRC tr = (Continue crc, tr'')
    \<longrightarrow> crc = crc32_Checksum (fst (respReadFile E (tr @ [EvSleep 10])))
          (crc32_MakeTable crc32_Castagnoli))"
proof (intro conjI impI)
  assume "rotationsidecar_Run_select E podIP sel currentChecksum tr = (Continue checksum, tr')
      \<and> checksum \<noteq> currentChecksum"
  then show "\<exists>data h. respReadFile E h = (data, None) \<and> checksum = md5_Sum data
          \<and> rotationsidecar_installKey E data (h @ [EvReadFile (data, None)]) = (Inr None, tr')"
    using select_commit by blast
next
  assume a: "rotationsidecar_Run_select E podIP sel currentChecksum tr = (Continue checksum, tr')
        \<and> checksum \<noteq> md5_Sum data
        \<and> authorized (respLeader E tr') podIP
        \<and> (Op event AND fsnotify_Write = fsnotify_Write
            \<or> Op event AND fsnotify_Remove = fsnotify_Remove)
        \<and> respReadFile E (rotationsidecar_readPoint E event tr') = (data, None)"
  then have "md5_Sum data \<noteq> checksum" by auto
  with a show "rotationsidecar_Run_select E podIP (WatcherEvents event) checksum tr' =
          (case rotationsidecar_installKey E data
                  (rotationsidecar_readPoint E event tr' @ [EvReadFile (data, None)]) of
             (Inl p, t) \<Rightarrow> (Panicked p, t)
           | (Inr None, t) \<Rightarrow> (Continue (md5_Sum data), t)
           | (Inr (Some err), t) \<Rightarrow> (Continue checksum, t))"
    by (intro select_changed) simp_all
next
  assume "rotatoe_Run_pass E currentCRC tr = (Continue crc, tr'')"
  then show "crc = crc32_Checksum (fst (respReadFile E (tr @ [EvSleep 10])))
      (crc32_MakeTable crc32_Castagnoli)"
    by (rule rotatoe_pass_commits_at_detection)
qed

text \<open>
  Claim C5, at concrete inputs, after a start-up that read \<open>k1\<close> and with \<open>k2\<close> in the file
  from then on: a pass of the rotation sidecar that rotates to \<open>k2\<close> and commits; a pass
  whose \<open>installKey\<close> fails at its first \<open>KeyringList\<close> and keeps \<open>k1\<close> committed,
  followed by a pass that runs \<open>installKey\<close> on \<open>k2\<close> again and fails again (the run of
  \<open>Run\<close> over the two write events is given beside it); and a pass of rotatoe whose
  promotion fails.
\<close>

theorem checksum_committed_after_installKey_witness:
  "rotationsidecar_Run_select envFileChanges ''10.0.0.7'' (WatcherEvents writeEvent)
      (md5_Sum ''k1'') [EvReadFile (''k1'', None)]
      = (Continue (md5_Sum ''k2''),
         [EvReadFile (''k1'', None), EvLeader (Inr ''10.0.0.7:8300''), EvReadFile (''k2'', None),
          EvKeyringList (Inr [Some keyringBoth]), EvKeyringInstall ''k2'' None, EvSleep 1,
          EvKeyringList (Inr [Some keyringBoth]), EvKeyringUse ''k2'' None,
          EvKeyringRemove ''k1'' None])
   \<and> md5_Sum ''k2'' \<noteq> md5_Sum ''k1''
   \<and> (\<exists>data h. respReadFile envFileChanges h = (data, None) \<and> md5_Sum ''k2'' = md5_Sum data
        \<and> rotationsidecar_installKey envFileChanges data (h @ [EvReadFile (data, None)]) =
           (Inr None,
            [EvReadFile (''k1'', None), EvLeader (Inr ''10.0.0.7:8300''),
             EvReadFile (''k2'', None),
             EvKeyringList (Inr [Some keyringBoth]), EvKeyringInstall ''k2'' None, EvSleep 1,
             EvKeyringList (Inr [Some keyringBoth]), EvKeyringUse ''k2'' None,
             EvKeyringRemove ''k1'' None]))
   \<and> rotationsidecar_Run_select envFileChangesListFails ''10.0.0.7'' (WatcherEvents writeEvent)
        (md5_Sum ''k1'') [EvReadFile (''k1'', None)]
      = (Continue (md5_Sum ''k1''),
         [EvReadFile (''k1'', None), EvLeader (Inr ''10.0.0.7:8300''), EvReadFile (''k2'', None),
          EvKeyringList (Inl ''rpc error'')])
   \<and> md5_Sum ''k1'' \<noteq> md5_Sum ''k2''
   \<and> authorized (respLeader envFileChangesListFails
        [EvReadFile (''k1'', None), EvLeader (Inr ''10.0.0.7:8300''), EvReadFile (''k2'', None),
         EvKeyringList (Inl ''rpc error'')]) ''10.0.0.7''
   \<and> Op writeEvent AND fsnotify_Write = fsnotify_Write
   \<and> respReadFile envFileChangesListFails
        (rotationsidecar_readPoint envFileChangesListFails writeEvent
          [EvReadFile (''k1'', None), EvLeader (Inr ''10.0.0.7:8300''), EvReadFile (''k2'', None),
           EvKeyringList (Inl ''rpc error'')])
      = (''k2'', None)
   \<and> rotationsidecar_Run_select envFileChangesListFails ''10.0.0.7'' (WatcherEvents writeEvent)
        (md5_Sum ''k1'')
        [EvReadFile (''k1'', None), EvLeader (Inr ''10.0.0.7:8300''), EvReadFile (''k2'', None),
         EvKeyringList (Inl ''rpc error'')]
      = (Continue (md5_Sum ''k1''),
         [EvReadFile (''k1'', None), EvLeader (Inr ''10.0.0.7:8300''), EvReadFile (''k2'', None),
          EvKeyringList (Inl ''rpc error''),
          EvLeader (Inr ''10.0.0.7:8300''), EvReadFile (''k2'', None),
          EvKeyringList (Inl ''rpc error'')])
   \<and> rotationsidecar_Run envFileChangesListFails ''10.0.0.7''
        [WatcherEvents writeEvent, WatcherEvents writeEvent]
      = (Continue (md5_Sum ''k1''),
         [EvReadFile (''k1'', None), EvLeader (Inr ''10.0.0.7:8300''), EvReadFile (''k2'', None),
          EvKeyringList (Inl ''rpc error''),
          EvLeader (Inr ''10.0.0.7:8300''), EvReadFile (''k2'', None),
          EvKeyringList (Inl ''rpc error'')])
   \<and> rotatoe_Run_pass envPromoteFails (crc32_Checksum ''k1'' (crc32_MakeTable crc32_Castagnoli)) []
      = (Continue (crc32_Checksum ''k2'' (crc32_MakeTable crc32_Castagnoli)),
         [EvSleep 10, EvReadFile (''k2'', None), EvKeyringInstall ''k2'' None, EvSleep 10,
          EvKeyringList (Inr [Some keyringBoth]), EvKeyringUse ''k2'' (Some ''rpc error'')])
   \<and> crc32_Checksum ''k2'' (crc32_MakeTable crc32_Castagnoli)
      = crc32_Checksum (fst (respReadFile envPromoteFails ([] @ [EvSleep 10])))
          (crc32_MakeTable crc32_Castagnoli)"
proof -
  let ?tr1 = "[EvReadFile (''k1'', None), EvLeader (Inr ''10.0.0.7:8300''),
    EvReadFile (''k2'', None), EvKeyringList (Inl ''rpc error'')]"
  have ne: "md5_Sum ''k2'' \<noteq> md5_Sum ''k1''"
    by (simp add: md5_Sum_k1 md5_Sum_k2)
  have ne': "md5_Sum ''k1'' \<noteq> md5_Sum ''k2''"
    by (simp add: md5_Sum_k1 md5_Sum_k2)
  have ok: "rotationsidecar_Run_select envFileChanges ''10.0.0.7'' (WatcherEvents writeEvent)
      (md5_Sum ''k1'') [EvReadFile (''k1'', None)]
      = (Continue (md5_Sum ''k2''),
         [EvReadFile (''k1'', None), EvLeader (Inr ''10.0.0.7:8300''), EvReadFile (''k2'', None),
          EvKeyringList (Inr [Some keyringBoth]), EvKeyringInstall ''k2'' None, EvSleep 1,
          EvKeyringList (Inr [Some keyringBoth]), EvKeyringUse ''k2'' None,
          EvKeyringRemove ''k1'' None])"
    by (simp add: run_defs call_defs env_defs keyringBoth_def md5_Sum_k1 md5_Sum_k2)
  have failed: "rotationsidecar_Run_select envFileChangesListFails ''10.0.0.7''
        (WatcherEvents writeEvent) (md5_Sum ''k1'') [EvReadFile (''k1'', None)]
      = (Continue (md5_Sum ''k1''), ?tr1)"
    by (simp add: run_defs call_defs env_defs md5_Sum_k1 md5_Sum_k2)
  have auth: "authorized (respLeader envFileChangesListFails ?tr1) ''10.0.0.7''"
    by (simp add: env_defs authorized_def)
  have wr: "Op writeEvent AND fsnotify_Write = fsnotify_Write"
    by (simp add: writeEvent_def)
  have rd: "respReadFile envFileChangesListFails
      (rotationsidecar_readPoint envFileChangesListFails writeEvent ?tr1) = (''k2'', None)"
    by (simp add: rotationsidecar_readPoint_def call_defs env_defs writeEvent_def
        fsnotify_Write_def fsnotify_Remove_def)
  have again: "rotationsidecar_installKey envFileChangesListFails ''k2''
      (rotationsidecar_readPoint envFileChangesListFails writeEvent ?tr1
        @ [EvReadFile (''k2'', None)])
      = (Inr (Some ''rpc error''),
         ?tr1 @ [EvLeader (Inr ''10.0.0.7:8300''), EvReadFile (''k2'', None),
                 EvKeyringList (Inl ''rpc error'')])"
    by (simp add: rotationsidecar_readPoint_def run_defs call_defs env_defs)
  have run: "rotationsidecar_Run envFileChangesListFails ''10.0.0.7''
        [WatcherEvents writeEvent, WatcherEvents writeEvent]
      = (Continue (md5_Sum ''k1''),
         ?tr1 @ [EvLeader (Inr ''10.0.0.7:8300''), EvReadFile (''k2'', None),
                 EvKeyringList (Inl ''rpc error'')])"
    by (simp add: run_defs call_defs env_defs md5_Sum_k1 md5_Sum_k2)
  have pass: "rotatoe_Run_pass envPromoteFails
        (crc32_Checksum ''k1'' (crc32_MakeTable crc32_Castagnoli)) []
      = (Continue (crc32_Checksum ''k2'' (crc32_MakeTable crc32_Castagnoli)),
         [EvSleep 10, EvReadFile (''k2'', None), EvKeyringInstall ''k2'' None, EvSleep 10,
          EvKeyringList (Inr [Some keyringBoth]), EvKeyringUse ''k2'' (Some ''rpc error'')])"
    by (simp add: run_defs call_defs env_defs keyringBoth_def crc32_Checksum_k1 crc32_Checksum_k2)
  note first = checksum_committed_after_installKey
    [of envFileChanges "''10.0.0.7''" "WatcherEvents writeEvent" "md5_Sum ''k1''"
        "[EvReadFile (''k1'', None)]" "md5_Sum ''k2''",
      THEN conjunct1, THEN mp, OF conjI, OF ok ne]
  have prem: "rotationsidecar_Run_select envFileChangesListFails ''10.0.0.7''
        (WatcherEvents writeEvent) (md5_Sum ''k1'') [EvReadFile (''k1'', None)]
        = (Continue (md5_Sum ''k1''), ?tr1)
      \<and> md5_Sum ''k1'' \<noteq> md5_Sum ''k2''
      \<and> authorized (respLeader envFileChangesListFails ?tr1) ''10.0.0.7''
      \<and> (Op writeEvent AND fsnotify_Write = fsnotify_Write
          \<or> Op writeEvent AND fsnotify_Remove = fsnotify_Remove)
      \<and> respReadFile envFileChangesListFails
          (rotationsidecar_readPoint envFileChangesListFails writeEvent ?tr1) = (''k2'', None)"
    using failed ne' auth wr rd by simp
  note second = checksum_committed_after_installKey
    [of envFileChangesListFails "''10.0.0.7''" "WatcherEvents writeEvent" "md5_Sum ''k1''"
        "[EvReadFile (''k1'', None)]" "md5_Sum ''k1''" ?tr1 "''k2''" writeEvent,
      THEN conjunct2, THEN conjunct1, THEN mp, OF prem]
  have retry: "rotationsidecar_Run_select envFileChangesListFails ''10.0.0.7''
        (WatcherEvents writeEvent) (md5_Sum ''k1'') ?tr1
      = (Continue (md5_Sum ''k1''),
         ?tr1 @ [EvLeader (Inr ''10.0.0.7:8300''), EvReadFile (''k2'', None),
                 EvKeyringList (Inl ''rpc error'')])"
    using second again by simp
  note third = checksum_committed_after_installKey
    [of envPromoteFails _ _ _ "[]" _ _ _ _
        "crc32_Checksum ''k1'' (crc32_MakeTable crc32_Castagnoli)"
        "crc32_Checksum ''k2'' (crc32_MakeTable crc32_Castagnoli)",
      THEN conjunct2, THEN conjunct2, THEN mp, OF pass]
  show ?thesis
    using ok ne first failed ne' auth wr rd retry run pass third by simp
qed

subsection \<open>What \<open>installKey\<close> returns\<close>

text \<open>
  Claim C10, as stated: whenever the initial \<open>KeyringInstall\<close> succeeds and the first
  \<open>KeyringList\<close> after it succeeds, \<open>installKey\<close> of the rotation sidecar returns
  \<open>nil\<close> on that poll. A \<open>KeyringList\<close> that succeeds with an empty list of responses
  makes the poll panic instead, and so does one that succeeds with a list whose first
  element is a \<open>nil\<close> pointer.
\<close>

theorem rotationsidecar_installKey_panics_in_poll:
  "respKeyringInstall envListDrains [EvKeyringList (Inr [Some keyringOld])] ''k2'' = None
   \<and> respKeyringList envListDrains
        [EvKeyringList (Inr [Some keyringOld]), EvKeyringInstall ''k2'' None, EvSleep 1] = Inr []
   \<and> rotationsidecar_installKey envListDrains ''k2'' [] =
       (Inl IndexOutOfRange,
        [EvKeyringList (Inr [Some keyringOld]), EvKeyringInstall ''k2'' None, EvSleep 1,
         EvKeyringList (Inr [])])
   \<and> respKeyringInstall envListNil [EvKeyringList (Inr [Some keyringOld])] ''k2'' = None
   \<and> respKeyringList envListNil
        [EvKeyringList (Inr [Some keyringOld]), EvKeyringInstall ''k2'' None, EvSleep 1]
       = Inr [None]
   \<and> rotationsidecar_installKey envListNil ''k2'' [] =
       (Inl NilDereference,
        [EvKeyringList (Inr [Some keyringOld]), EvKeyringInstall ''k2'' None, EvSleep 1,
         EvKeyringList (Inr [None])])"
  by (simp add: run_defs call_defs env_defs)

text \<open>
  Claim C10, amended by the condition that the program can read the first response of
  each list: the \<open>KeyringList\<close> before the installation and the first \<open>KeyringList\<close> of
  the poll loop each return a list that is not empty and whose first element is not
  \<open>nil\<close>. Whenever the initial \<open>KeyringInstall\<close> succeeds and the first list of the poll
  loop succeeds so, \<open>installKey\<close> returns \<open>nil\<close> in that first poll, after the two
  \<open>range\<close> loops over the listed keys and whatever their calls answered (the new key
  listed or not, \<open>KeyringUse\<close> made or not, failed or not, \<open>KeyringRemove\<close> failed or
  not); and the write case that called it commits the checksum of the new key.
\<close>

theorem rotationsidecar_installKey_nil_after_first_list:
  assumes old: "respKeyringList E tr = Inr (Some old0 # olds)"
    and inst: "respKeyringInstall E (tr @ [EvKeyringList (Inr (Some old0 # olds))]) newKey = None"
    and poll: "respKeyringList E
        (tr @ [EvKeyringList (Inr (Some old0 # olds)), EvKeyringInstall newKey None, EvSleep 1])
        = Inr (Some r0 # rs)"
  shows "rotationsidecar_installKey E newKey tr =
      (Inr None,
       rotationsidecar_removeLoop E newKey (map fst (Keys r0))
         (rotationsidecar_promoteLoop E newKey (map fst (Keys r0))
            (tr @ [EvKeyringList (Inr (Some old0 # olds)), EvKeyringInstall newKey None,
                   EvSleep 1, EvKeyringList (Inr (Some r0 # rs))])))
    \<and> (respReadFile E tr0 = (newKey, None) \<and> tr = tr0 @ [EvReadFile (newKey, None)]
          \<and> md5_Sum newKey \<noteq> currentChecksum
        \<longrightarrow> fst (rotationsidecar_caseWrite E currentChecksum tr0) = Continue (md5_Sum newKey))"
proof -
  have ik: "rotationsidecar_installKey E newKey tr =
      (Inr None,
       rotationsidecar_removeLoop E newKey (map fst (Keys r0))
         (rotationsidecar_promoteLoop E newKey (map fst (Keys r0))
            (tr @ [EvKeyringList (Inr (Some old0 # olds)), EvKeyringInstall newKey None,
                   EvSleep 1, EvKeyringList (Inr (Some r0 # rs))])))"
    using old inst poll
    by (simp add: rotationsidecar_installKey_def rotationsidecar_pollLoop.simps [of E newKey 0]
        call_defs)
  show ?thesis
  proof (intro conjI impI)
    show "rotationsidecar_installKey E newKey tr =
      (Inr None,
       rotationsidecar_removeLoop E newKey (map fst (Keys r0))
         (rotationsidecar_promoteLoop E newKey (map fst (Keys r0))
            (tr @ [EvKeyringList (Inr (Some old0 # olds)), EvKeyringInstall newKey None,
                   EvSleep 1, EvKeyringList (Inr (Some r0 # rs))])))"
      by (rule ik)
  next
    assume "respReadFile E tr0 = (newKey, None) \<and> tr = tr0 @ [EvReadFile (newKey, None)]
          \<and> md5_Sum newKey \<noteq> currentChecksum"
    then show "fst (rotationsidecar_caseWrite E currentChecksum tr0) = Continue (md5_Sum newKey)"
      using ik by (simp add: rotationsidecar_caseWrite_def ReadFile_def)
  qed
qed

text \<open>
  Claim C10, at a concrete input: the keyring never lists the new key \<open>k2\<close> and the
  removal of \<open>k1\<close> fails; \<open>installKey\<close> returns \<open>nil\<close> in the first poll and the write
  case commits the checksum of \<open>k2\<close>.
\<close>

theorem rotationsidecar_installKey_nil_after_first_list_witness:
  "respKeyringList envNotListed [EvReadFile (''k2'', None)] = Inr [Some keyringOld]
   \<and> respKeyringInstall envNotListed
        [EvReadFile (''k2'', None), EvKeyringList (Inr [Some keyringOld])] ''k2'' = None
   \<and> respKeyringList envNotListed
        [EvReadFile (''k2'', None), EvKeyringList (Inr [Some keyringOld]),
         EvKeyringInstall ''k2'' None, EvSleep 1]
       = Inr [Some keyringOld]
   \<and> respReadFile envNotListed [] = (''k2'', None)
   \<and> md5_Sum ''k2'' \<noteq> md5_Sum ''k1''
   \<and> rotationsidecar_installKey envNotListed ''k2'' [EvReadFile (''k2'', None)] =
       (Inr None,
        [EvReadFile (''k2'', None), EvKeyringList (Inr [Some keyringOld]),
         EvKeyringInstall ''k2'' None, EvSleep 1, EvKeyringList (Inr [Some keyringOld]),
         EvKeyringRemove ''k1'' (Some ''rpc error'')])
   \<and> fst (rotationsidecar_caseWrite envNotListed (md5_Sum ''k1'') []) = Continue (md5_Sum ''k2'')"
proof -
  have old: "respKeyringList envNotListed [EvReadFile (''k2'', None)] = Inr (Some keyringOld # [])"
    by (simp add: env_defs)
  have inst: "respKeyringInstall envNotListed
      ([EvReadFile (''k2'', None)] @ [EvKeyringList (Inr (Some keyringOld # []))]) ''k2'' = None"
    by (simp add: env_defs)
  have poll: "respKeyringList envNotListed
      ([EvReadFile (''k2'', None)]
        @ [EvKeyringList (Inr (Some keyringOld # [])), EvKeyringInstall ''k2'' None, EvSleep 1])
      = Inr (Some keyringOld # [])"
    by (simp add: env_defs)
  have rd: "respReadFile envNotListed [] = (''k2'', None)"
    by (simp add: env_defs)
  have ne: "md5_Sum ''k2'' \<noteq> md5_Sum ''k1''"
    by (simp add: md5_Sum_k1 md5_Sum_k2)
  have loops: "rotationsidecar_removeLoop envNotListed ''k2'' (map fst (Keys keyringOld))
         (rotationsidecar_promoteLoop envNotListed ''k2'' (map fst (Keys keyringOld))
            ([EvReadFile (''k2'', None)]
              @ [EvKeyringList (Inr [Some keyringOld]), EvKeyringInstall ''k2'' None, EvSleep 1,
                 EvKeyringList (Inr [Some keyringOld])]))
       = [EvReadFile (''k2'', None), EvKeyringList (Inr [Some keyringOld]),
          EvKeyringInstall ''k2'' None, EvSleep 1, EvKeyringList (Inr [Some keyringOld]),
          EvKeyringRemove ''k1'' (Some ''rpc error'')]"
    by (simp add: call_defs env_defs keyringOld_def)
  show ?thesis
    using rotationsidecar_installKey_nil_after_first_list
        [OF old inst poll, of "[]" "md5_Sum ''k1''"] old inst poll rd ne loops
    by simp
qed

end
